theory Spec2Isabelle
  imports Complex_Main "HOL-Library.Word" "HOL-Library.Product_Lexorder" "HOL-Library.Monad_Syntax"
begin

section \<open>JavaScript values used by the resume reader\<close>

subsection \<open>Strings\<close>

text \<open>
  A JavaScript string is a sequence of 16-bit code units. Literals of the source are
  ASCII and are written through \<open>ascii\<close>.
\<close>

type_synonym js_string = "16 word list"

definition ascii :: "string \<Rightarrow> js_string" where
  "ascii s = map (\<lambda>c. of_char c) s"

text \<open>
  \<open>String.prototype.trim\<close> removes leading and trailing code units that are
  ECMAScript WhiteSpace (TAB, VT, FF, ZWNBSP and the Unicode space separators) or
  LineTerminator (LF, CR, LS, PS).
\<close>

definition isWhiteSpace :: "16 word \<Rightarrow> bool" where
  "isWhiteSpace c \<longleftrightarrow>
     c \<in> set [0x0009, 0x000A, 0x000B, 0x000C, 0x000D, 0x0020, 0x00A0, 0x1680,
                0x2000, 0x2001, 0x2002, 0x2003, 0x2004, 0x2005, 0x2006, 0x2007,
                0x2008, 0x2009, 0x200A, 0x2028, 0x2029, 0x202F, 0x205F, 0x3000,
                0xFEFF]"

definition trim :: "js_string \<Rightarrow> js_string" where
  "trim s = rev (dropWhile isWhiteSpace (rev (dropWhile isWhiteSpace s)))"

text \<open>\<open>s.split(sep)\<close> for a separator of one code unit; the result is never empty.\<close>

fun split :: "16 word \<Rightarrow> js_string \<Rightarrow> js_string list" where
  "split sep [] = [[]]"
| "split sep (c # cs) =
     (if c = sep then [] # split sep cs
      else (case split sep cs of
              [] \<Rightarrow> [[c]]
            | seg # segs \<Rightarrow> (c # seg) # segs))"

text \<open>\<open>Array.prototype.pop\<close>, read for its result: the last element, or undefined.\<close>

definition pop :: "'a list \<Rightarrow> 'a option" where
  "pop xs = (if xs = [] then None else Some (last xs))"

text \<open>Decimal digits of a non-negative integer, as a template literal prints it.\<close>

function decimal :: "nat \<Rightarrow> js_string" where
  "decimal n =
     (if n < 10 then [of_nat (48 + n)]
      else decimal (n div 10) @ [of_nat (48 + n mod 10)])"
  by pat_completeness auto
termination
  by (relation "measure id") auto

declare decimal.simps [simp del]

subsection \<open>Numbers\<close>

text \<open>
  A JavaScript number is an IEEE 754 binary64 value. Every finite binary64 value is an
  integer multiple of \<open>2^-1074\<close>, the smallest subnormal, and a finite value is
  modelled by that integer: \<open>Num k\<close> is \<open>k * 2^-1074\<close>. The values of the format are
  the \<open>k\<close> whose magnitude has at most 53 significant bits and is below
  \<open>2^2098 = 2^1024 * 2^1074\<close>. \<open>Num 0\<close> is \<open>+0\<close> and \<open>NegZero\<close> is \<open>-0\<close>.
  \<open>double n\<close> is the number of the integer \<open>n\<close>, as an integer literal of at most
  53 bits denotes it.
\<close>

datatype number = Num int | NegZero | Infinity | NegInfinity | NaN

definition double :: "int \<Rightarrow> number" where
  "double n = Num (n * 2 ^ 1074)"

text \<open>
  Rounding to nearest, ties to even, of an exact magnitude (in units of \<open>2^-1074\<close>):
  the bits below the 53 leading ones are dropped, and the result goes up when they are
  more than half a unit of the last kept place, or exactly half with the kept part odd.
  A rounded magnitude of \<open>2^1024\<close> or more overflows to an infinity.
\<close>

function bit_length :: "nat \<Rightarrow> nat" where
  "bit_length n = (if n = 0 then 0 else Suc (bit_length (n div 2)))"
  by pat_completeness auto
termination
  by (relation "measure id") auto

declare bit_length.simps [simp del]

definition round_nearest_even :: "nat \<Rightarrow> nat" where
  "round_nearest_even n =
     (let excess = bit_length n - 53
      in if excess = 0 then n
         else (let unit = 2 ^ excess; q = n div unit; r = n mod unit; half = unit div 2
               in if half < r \<or> (r = half \<and> odd q) then (q + 1) * unit else q * unit))"

definition round_to_double :: "int \<Rightarrow> number" where
  "round_to_double d =
     (let m = round_nearest_even (nat \<bar>d\<bar>)
      in if 2 ^ 2098 \<le> m then (if d < 0 then NegInfinity else Infinity)
         else Num (if d < 0 then - int m else int m))"

text \<open>The integer of a finite number; both zeros have the value 0.\<close>

fun finite_value :: "number \<Rightarrow> int" where
  "finite_value (Num k) = k"
| "finite_value v = 0"

text \<open>The relational operator \<open>a < b\<close>: false whenever an operand is NaN.\<close>

fun js_lt :: "number \<Rightarrow> number \<Rightarrow> bool" where
  "js_lt NaN b = False"
| "js_lt a NaN = False"
| "js_lt Infinity b = False"
| "js_lt a Infinity = True"
| "js_lt a NegInfinity = False"
| "js_lt NegInfinity b = True"
| "js_lt a b = (finite_value a < finite_value b)"

text \<open>\<open>a >= b\<close>: false whenever an operand is NaN, otherwise the negation of \<open>a < b\<close>.\<close>

definition js_ge :: "number \<Rightarrow> number \<Rightarrow> bool" where
  "js_ge a b \<longleftrightarrow> a \<noteq> NaN \<and> b \<noteq> NaN \<and> \<not> js_lt a b"

text \<open>
  The binary \<open>-\<close> on numbers: the exact difference of two finite values, rounded. An
  exact difference of zero is \<open>+0\<close>, except that \<open>-0 - +0\<close> is \<open>-0\<close>.
\<close>

fun js_minus :: "number \<Rightarrow> number \<Rightarrow> number" where
  "js_minus NaN b = NaN"
| "js_minus a NaN = NaN"
| "js_minus Infinity Infinity = NaN"
| "js_minus NegInfinity NegInfinity = NaN"
| "js_minus Infinity b = Infinity"
| "js_minus NegInfinity b = NegInfinity"
| "js_minus a Infinity = NegInfinity"
| "js_minus a NegInfinity = Infinity"
| "js_minus NegZero (Num b) = (if b = 0 then NegZero else round_to_double (- b))"
| "js_minus a b = round_to_double (finite_value a - finite_value b)"

text \<open>
  An array read \<open>p[i]\<close> gives undefined (here \<open>None\<close>) past the end of the array,
  and \<open>ToNumber\<close> turns undefined into NaN.
\<close>

definition index :: "'a list \<Rightarrow> nat \<Rightarrow> 'a option" where
  "index p i = (if i < length p then Some (p ! i) else None)"

definition ToNumber :: "number option \<Rightarrow> number" where
  "ToNumber v = (case v of None \<Rightarrow> NaN | Some n \<Rightarrow> n)"

text \<open>
  \<open>Math.min(...values)\<close> and \<open>Math.max(...values)\<close> as ECMAScript defines them:
  every argument is coerced with \<open>ToNumber\<close>, NaN is returned if any argument is
  NaN, the scan starts from \<open>+Infinity\<close> (resp. \<open>-Infinity\<close>), and \<open>-0\<close> counts as
  less than \<open>+0\<close>.
\<close>

fun min_scan :: "number \<Rightarrow> number list \<Rightarrow> number" where
  "min_scan lowest [] = lowest"
| "min_scan lowest (n # rest) =
     (if n = NaN then NaN
      else min_scan (if n = NegZero \<and> lowest = Num 0 then NegZero
                     else if js_lt n lowest then n else lowest) rest)"

fun max_scan :: "number \<Rightarrow> number list \<Rightarrow> number" where
  "max_scan highest [] = highest"
| "max_scan highest (n # rest) =
     (if n = NaN then NaN
      else max_scan (if n = Num 0 \<and> highest = NegZero then Num 0
                     else if js_lt highest n then n else highest) rest)"

definition Math_min :: "number option list \<Rightarrow> number" where
  "Math_min values = min_scan Infinity (map ToNumber values)"

definition Math_max :: "number option list \<Rightarrow> number" where
  "Math_max values = max_scan NegInfinity (map ToNumber values)"

text \<open>\<open>a || b\<close> on a number \<open>a\<close>: the falsy numbers are the two zeros and NaN.\<close>

definition number_or :: "number \<Rightarrow> number \<Rightarrow> number" where
  "number_or a b = (if a = Num 0 \<or> a = NegZero \<or> a = NaN then b else a)"

subsection \<open>Thrown values\<close>

text \<open>
  What a \<open>throw\<close> or a rejected promise carries: an instance of \<open>Error\<close> (with the
  \<open>name\<close> of its class and its \<open>message\<close>), or any other value, such as a thrown
  string. A failing computation is \<open>Inl\<close> of the thrown value.
\<close>

datatype thrown =
    Error (error_name: js_string) (message: js_string)
  | NonError js_string

definition new_Error :: "js_string \<Rightarrow> thrown" where
  "new_Error msg = Error (ascii ''Error'') msg"

section \<open>unstructured-api.ts: the data model\<close>

record Coordinates =
  points :: "number list list"
  system :: js_string
  layout_width :: number
  layout_height :: number

record Metadata =
  filename :: "js_string option"
  page_number :: "number option"
  coordinates :: "Coordinates option"

text \<open>
  The fields of an element carry the prefix \<open>el_\<close>; the objects
  \<open>convertUnstructuredToTextItems\<close> returns (the \<open>TextItem\<close> of the pipeline)
  carry the prefix \<open>item_\<close>.
\<close>

record UnstructuredElement =
  el_type :: js_string
  el_text :: js_string
  el_metadata :: "Metadata option"

record TextItem =
  item_text :: js_string
  item_x :: number
  item_y :: number
  item_width :: number
  item_height :: number
  item_fontName :: js_string
  item_hasEOL :: bool

section \<open>convertUnstructuredToTextItems\<close>

text \<open>
  The predicate of \<open>.filter\<close>: \<open>element.text && element.text.trim()\<close> is truthy
  when both strings are non-empty.
\<close>

definition has_text :: "UnstructuredElement \<Rightarrow> bool" where
  "has_text element \<longleftrightarrow> el_text element \<noteq> [] \<and> trim (el_text element) \<noteq> []"

text \<open>
  The callback of \<open>.map\<close>. Its second parameter \<open>index\<close> is not used by the source
  and is left out. \<open>metadata || {}\<close> makes \<open>coordinates\<close> undefined when the
  element has no metadata. In the condition of the \<open>if\<close>, \<open>coordinates.points\<close> is an
  array and so truthy; what remains is that there are coordinates and that the array
  is not empty.
\<close>

definition to_text_item :: "UnstructuredElement \<Rightarrow> TextItem" where
  "to_text_item element =
     (let coords = (case el_metadata element of
                      None \<Rightarrow> None
                    | Some md \<Rightarrow> coordinates md)
      in case coords of
           None \<Rightarrow>
             \<lparr>item_text = el_text element, item_x = double 0, item_y = double 0,
              item_width = double 100, item_height = double 12,
              item_fontName = ascii ''UnknownFont'', item_hasEOL = True\<rparr>
         | Some c \<Rightarrow>
             if length (points c) > 0 then
               (let xs = map (\<lambda>p. index p 0) (points c);
                    ys = map (\<lambda>p. index p 1) (points c);
                    x = Math_min xs;
                    maxX = Math_max xs;
                    width = js_minus maxX x;
                    maxY = Math_max ys;
                    minY = Math_min ys;
                    height = js_minus maxY minY;
                    pageHeight = number_or (layout_height c) (double 792);
                    y = js_minus pageHeight maxY
                in \<lparr>item_text = el_text element, item_x = x, item_y = y,
                    item_width = width, item_height = height,
                    item_fontName = ascii ''UnknownFont'', item_hasEOL = True\<rparr>)
             else
               \<lparr>item_text = el_text element, item_x = double 0, item_y = double 0,
                item_width = double 100, item_height = double 12,
                item_fontName = ascii ''UnknownFont'', item_hasEOL = True\<rparr>)"

definition convertUnstructuredToTextItems :: "UnstructuredElement list \<Rightarrow> TextItem list" where
  "convertUnstructuredToTextItems elements = map to_text_item (filter has_text elements)"

section \<open>The world outside: environment variables and the network\<close>

record Blob =
  blob_bytes :: "8 word list"
  blob_type :: js_string

record File =
  file_bytes :: "8 word list"
  file_name :: js_string
  file_type :: js_string

text \<open>
  A \<open>Response\<close> carries its \<open>ok\<close>, \<open>status\<close> and \<open>statusText\<close>, and what awaiting
  its methods \<open>text()\<close>, \<open>json()\<close> and \<open>blob()\<close> settles to. The source types the
  parsed JSON as \<open>UnstructuredElement[]\<close>.
\<close>

record Response =
  ok :: bool
  status :: nat
  statusText :: js_string
  text_result :: "thrown + js_string"
  json_result :: "thrown + UnstructuredElement list"
  blob_result :: "thrown + Blob"

datatype form_value = FormString js_string | FormFile File

record Request =
  req_url :: js_string
  req_method :: js_string
  req_headers :: "(js_string \<times> js_string) list"
  req_body :: "(js_string \<times> form_value) list option"

text \<open>
  \<open>process.env\<close> and \<open>fetch\<close>. An awaited call is modelled by what its promise
  settles to: \<open>Inr\<close> the value it resolves with, \<open>Inl\<close> the value it rejects with.
\<close>

record world =
  env :: "js_string \<Rightarrow> js_string option"
  fetch :: "Request \<Rightarrow> thrown + Response"

text \<open>\<open>a || b\<close> on a string that may be undefined: undefined and the empty string are falsy.\<close>

definition string_or :: "js_string option \<Rightarrow> js_string \<Rightarrow> js_string" where
  "string_or a b = (case a of None \<Rightarrow> b | Some v \<Rightarrow> if v = [] then b else v)"

section \<open>parseDocumentWithUnstructured\<close>

text \<open>
  The missing-key check stands before the \<open>try\<close> block, so its error is not
  rewritten by the \<open>catch\<close>. Everything thrown inside the \<open>try\<close> block reaches the
  \<open>catch\<close>, which replaces an \<open>Error\<close> by a new one with a prefixed message and
  rethrows any other value.
\<close>

definition parseDocumentWithUnstructured ::
  "world \<Rightarrow> File \<Rightarrow> thrown + UnstructuredElement list" where
  "parseDocumentWithUnstructured w file =
     (let apiKey = env w (ascii ''NEXT_PUBLIC_UNSTRUCTURED_API_KEY'');
          apiUrl = string_or (env w (ascii ''NEXT_PUBLIC_UNSTRUCTURED_API_URL''))
                     (ascii ''https://api.unstructured.io/general/v0/general'')
      in if apiKey = None \<or> apiKey = Some [] then
           Inl (new_Error (ascii (''Unstructured API key not configured. '' @
                  ''Please set NEXT_PUBLIC_UNSTRUCTURED_API_KEY environment variable.'')))
         else
           (let formData = [(ascii ''files'', FormFile file),
                            (ascii ''strategy'', FormString (ascii ''hi_res'')),
                            (ascii ''coordinates'', FormString (ascii ''true''))];
                attempt =
                  (case fetch w \<lparr>req_url = apiUrl, req_method = ascii ''POST'',
                                   req_headers = [(ascii ''unstructured-api-key'', the apiKey)],
                                   req_body = Some formData\<rparr> of
                     Inl error \<Rightarrow> Inl error
                   | Inr response \<Rightarrow>
                       if \<not> ok response then
                         (case text_result response of
                            Inl error \<Rightarrow> Inl error
                          | Inr errorText \<Rightarrow>
                              Inl (new_Error
                                (ascii ''Unstructured API request failed: '' @
                                 decimal (status response) @ ascii '' '' @
                                 statusText response @ ascii '' - '' @ errorText)))
                       else json_result response)
            in case attempt of
                 Inr elements \<Rightarrow> Inr elements
               | Inl error \<Rightarrow>
                   (case error of
                      Error name msg \<Rightarrow>
                        Inl (new_Error
                          (ascii ''Failed to parse document with Unstructured API: '' @ msg))
                    | NonError v \<Rightarrow> Inl (NonError v))))"

section \<open>read-document.ts\<close>

definition isEmptySpace :: "TextItem \<Rightarrow> bool" where
  "isEmptySpace textItem \<longleftrightarrow> \<not> item_hasEOL textItem \<and> trim (item_text textItem) = []"

text \<open>
  \<open>readDocument\<close>: the whole body is inside \<open>try\<close>; the conversion and the filter
  do not throw, so the \<open>catch\<close> is reached only from the awaited parse.
\<close>

definition readDocument :: "world \<Rightarrow> File \<Rightarrow> thrown + TextItem list" where
  "readDocument w file =
     (case parseDocumentWithUnstructured w file of
        Inr elements \<Rightarrow>
          (let textItems = convertUnstructuredToTextItems elements;
               textItems = filter (\<lambda>textItem. \<not> isEmptySpace textItem) textItems
           in Inr textItems)
      | Inl error \<Rightarrow>
          (case error of
             Error name msg \<Rightarrow>
               Inl (new_Error (ascii ''Failed to read document: '' @ msg))
           | NonError v \<Rightarrow> Inl (NonError v)))"

text \<open>
  \<open>readPdf\<close>. The statements of its \<open>try\<close> block before the \<open>return\<close> are
  \<open>fetch_file\<close>: fetch the URL, read the blob, name the file after the last segment
  of the URL. The \<open>catch\<close> sees what these throw. The last statement is
  \<open>return readDocument(file)\<close> without \<open>await\<close>, so a rejection of that promise
  leaves the function without passing through the \<open>catch\<close>.
\<close>

definition fetch_file :: "world \<Rightarrow> js_string \<Rightarrow> thrown + File" where
  "fetch_file w fileUrl =
     (case fetch w \<lparr>req_url = fileUrl, req_method = ascii ''GET'',
                      req_headers = [], req_body = None\<rparr> of
        Inl error \<Rightarrow> Inl error
      | Inr response \<Rightarrow>
          (case blob_result response of
             Inl error \<Rightarrow> Inl error
           | Inr blob \<Rightarrow>
               (let filename = string_or (pop (split (of_char CHR ''/'') fileUrl))
                                 (ascii ''document'');
                    file = \<lparr>file_bytes = blob_bytes blob, file_name = filename,
                            file_type = blob_type blob\<rparr>
                in Inr file)))"

definition readPdf :: "world \<Rightarrow> js_string \<Rightarrow> thrown + TextItem list" where
  "readPdf w fileUrl =
     (case fetch_file w fileUrl of
        Inr file \<Rightarrow> readDocument w file
      | Inl error \<Rightarrow>
          (case error of
             Error name msg \<Rightarrow>
               Inl (new_Error (ascii ''Failed to read PDF from URL: '' @ msg))
           | NonError v \<Rightarrow> Inl (NonError v)))"

section \<open>parseResumeFromPdf and parseResumeFromFile\<close>

text \<open>
  The three later stages are imported from modules outside the files at hand. They are
  parameters here: any functions, which may throw.
\<close>

record ('l, 's, 'r) stages =
  groupTextItemsIntoLines :: "TextItem list \<Rightarrow> thrown + 'l"
  groupLinesIntoSections :: "'l \<Rightarrow> thrown + 's"
  extractResumeFromSections :: "'s \<Rightarrow> thrown + 'r"

text \<open>
  To speak about which stage is invoked, and on what, a pipeline run keeps a log of its
  calls: \<open>invoke c outcome\<close> records the call \<open>c\<close> and continues with its outcome;
  \<open>and_then\<close> sequences two steps, the second skipped when the first throws.
\<close>

datatype ('l, 's) call =
    Call_readDocument File
  | Call_readPdf js_string
  | Call_groupTextItemsIntoLines "TextItem list"
  | Call_groupLinesIntoSections 'l
  | Call_extractResumeFromSections 's

type_synonym ('c, 'a) logged = "'c list \<Rightarrow> (thrown + 'a) \<times> 'c list"

definition invoke :: "'c \<Rightarrow> thrown + 'a \<Rightarrow> ('c, 'a) logged" where
  "invoke c outcome = (\<lambda>calls. (outcome, calls @ [c]))"

definition and_then :: "('c, 'a) logged \<Rightarrow> ('a \<Rightarrow> ('c, 'b) logged) \<Rightarrow> ('c, 'b) logged" where
  "and_then m f =
     (\<lambda>calls. case m calls of
               (Inl error, calls') \<Rightarrow> (Inl error, calls')
             | (Inr v, calls') \<Rightarrow> f v calls')"

definition returns :: "'a \<Rightarrow> ('c, 'a) logged" where
  "returns v = (\<lambda>calls. (Inr v, calls))"

definition parseResumeFromPdf ::
  "world \<Rightarrow> ('l, 's, 'r) stages \<Rightarrow> js_string \<Rightarrow> (('l, 's) call, 'r) logged" where
  "parseResumeFromPdf w st fileUrl =
     and_then (invoke (Call_readPdf fileUrl) (readPdf w fileUrl)) (\<lambda>textItems.
     and_then (invoke (Call_groupTextItemsIntoLines textItems)
                 (groupTextItemsIntoLines st textItems)) (\<lambda>lines.
     and_then (invoke (Call_groupLinesIntoSections lines)
                 (groupLinesIntoSections st lines)) (\<lambda>sections.
     and_then (invoke (Call_extractResumeFromSections sections)
                 (extractResumeFromSections st sections)) (\<lambda>resume.
     returns resume))))"

definition parseResumeFromFile ::
  "world \<Rightarrow> ('l, 's, 'r) stages \<Rightarrow> File \<Rightarrow> (('l, 's) call, 'r) logged" where
  "parseResumeFromFile w st file =
     and_then (invoke (Call_readDocument file) (readDocument w file)) (\<lambda>textItems.
     and_then (invoke (Call_groupTextItemsIntoLines textItems)
                 (groupTextItemsIntoLines st textItems)) (\<lambda>lines.
     and_then (invoke (Call_groupLinesIntoSections lines)
                 (groupLinesIntoSections st lines)) (\<lambda>sections.
     and_then (invoke (Call_extractResumeFromSections sections)
                 (extractResumeFromSections st sections)) (\<lambda>resume.
     returns resume))))"

text \<open>Plain composition of possibly failing functions, for comparison with the pipeline.\<close>

definition bind_result :: "thrown + 'a \<Rightarrow> ('a \<Rightarrow> thrown + 'b) \<Rightarrow> thrown + 'b" where
  "bind_result r f = (case r of Inl error \<Rightarrow> Inl error | Inr v \<Rightarrow> f v)"

section \<open>convertUnstructuredToTextItems on a heap of objects\<close>

text \<open>
  To state that the conversion writes to nothing it was given and reads nothing but its
  argument, the function is written once more on a heap. Objects and arrays live at
  addresses; a value is a primitive or a reference to an address; an effect takes the
  heap and returns its result with the heap it leaves, or \<open>None\<close> where the source
  would throw a \<open>TypeError\<close> or meets a value its declared types exclude. A callback is
  any effect: nothing in its type keeps it from writing.
\<close>

datatype js_value =
    VUndefined
  | VNumber number
  | VString js_string
  | VBoolean bool
  | VReference nat

datatype js_object =
    JsObject "(string \<times> js_value) list"
  | JsArray "js_value list"

type_synonym heap = "js_object list"

type_synonym 'a effect = "heap \<Rightarrow> ('a \<times> heap) option"

text \<open>A new object or array gets the next address; nothing at an old address changes.\<close>

definition allocate :: "js_object \<Rightarrow> heap \<Rightarrow> js_value \<times> heap" where
  "allocate obj h = (VReference (length h), h @ [obj])"

text \<open>The properties of the object, and the entries of the array, a value refers to.\<close>

definition fields_of :: "heap \<Rightarrow> js_value \<Rightarrow> (string \<times> js_value) list option" where
  "fields_of h v =
     (case v of
        VReference a \<Rightarrow> (case index h a of Some (JsObject props) \<Rightarrow> Some props | _ \<Rightarrow> None)
      | _ \<Rightarrow> None)"

definition values_of :: "heap \<Rightarrow> js_value \<Rightarrow> js_value list option" where
  "values_of h v =
     (case v of
        VReference a \<Rightarrow> (case index h a of Some (JsArray values) \<Rightarrow> Some values | _ \<Rightarrow> None)
      | _ \<Rightarrow> None)"

text \<open>
  \<open>v.name\<close>: a property that is not there reads as undefined, and so does any
  property of a primitive; reading a property of undefined throws.
\<close>

definition lookup :: "(string \<times> js_value) list \<Rightarrow> string \<Rightarrow> js_value" where
  "lookup props name = (case map_of props name of None \<Rightarrow> VUndefined | Some v \<Rightarrow> v)"

definition property :: "heap \<Rightarrow> js_value \<Rightarrow> string \<Rightarrow> js_value option" where
  "property h v name =
     (case v of
        VUndefined \<Rightarrow> None
      | VReference a \<Rightarrow>
          (case index h a of
             None \<Rightarrow> None
           | Some (JsObject props) \<Rightarrow> Some (lookup props name)
           | Some (JsArray values) \<Rightarrow> Some VUndefined)
      | _ \<Rightarrow> Some VUndefined)"

text \<open>\<open>array.length\<close> and \<open>array[k]\<close>, which is undefined past the end.\<close>

definition array_length :: "heap \<Rightarrow> js_value \<Rightarrow> nat option" where
  "array_length h v = map_option length (values_of h v)"

definition element_at :: "heap \<Rightarrow> js_value \<Rightarrow> nat \<Rightarrow> js_value option" where
  "element_at h v k =
     map_option (\<lambda>values. case index values k of None \<Rightarrow> VUndefined | Some x \<Rightarrow> x) (values_of h v)"

text \<open>What \<open>&&\<close>, \<open>||\<close>, \<open>if\<close> and \<open>filter\<close> take for true.\<close>

fun truthy :: "js_value \<Rightarrow> bool" where
  "truthy VUndefined = False"
| "truthy (VNumber n) = (n \<noteq> Num 0 \<and> n \<noteq> NegZero \<and> n \<noteq> NaN)"
| "truthy (VString s) = (s \<noteq> [])"
| "truthy (VBoolean b) = b"
| "truthy (VReference a) = True"

text \<open>
  \<open>Array.prototype.map\<close> and \<open>Array.prototype.filter\<close>: the length is read once,
  then for each index in turn the entry is read from the heap as it then is, the
  callback runs on it and hands on the heap it leaves, and at the end the results (for
  \<open>filter\<close>, the entries whose result is truthy) are placed in a new array.
\<close>

fun map_from ::
  "(js_value \<Rightarrow> js_value effect) \<Rightarrow> js_value \<Rightarrow> nat \<Rightarrow> nat \<Rightarrow> js_value list effect" where
  "map_from callback array k 0 h = Some ([], h)"
| "map_from callback array k (Suc n) h =
     do { v \<leftarrow> element_at h array k;
          (r, h1) \<leftarrow> callback v h;
          (rs, h2) \<leftarrow> map_from callback array (Suc k) n h1;
          Some (r # rs, h2) }"

definition array_map :: "(js_value \<Rightarrow> js_value effect) \<Rightarrow> js_value \<Rightarrow> js_value effect" where
  "array_map callback array h =
     do { len \<leftarrow> array_length h array;
          (rs, h1) \<leftarrow> map_from callback array 0 len h;
          Some (allocate (JsArray rs) h1) }"

fun filter_from ::
  "(js_value \<Rightarrow> js_value effect) \<Rightarrow> js_value \<Rightarrow> nat \<Rightarrow> nat \<Rightarrow> js_value list effect" where
  "filter_from callback array k 0 h = Some ([], h)"
| "filter_from callback array k (Suc n) h =
     do { v \<leftarrow> element_at h array k;
          (selected, h1) \<leftarrow> callback v h;
          (kept, h2) \<leftarrow> filter_from callback array (Suc k) n h1;
          Some (if truthy selected then v # kept else kept, h2) }"

definition array_filter :: "(js_value \<Rightarrow> js_value effect) \<Rightarrow> js_value \<Rightarrow> js_value effect" where
  "array_filter callback array h =
     do { len \<leftarrow> array_length h array;
          (kept, h1) \<leftarrow> filter_from callback array 0 len h;
          Some (allocate (JsArray kept) h1) }"

text \<open>
  A value as a number, where the source's types say it is one; and the arguments
  \<open>...xs\<close> spreads into \<open>Math.min\<close> and \<open>Math.max\<close>, undefined entries included.
\<close>

definition as_number :: "js_value \<Rightarrow> number option" where
  "as_number v = (case v of VNumber n \<Rightarrow> Some n | _ \<Rightarrow> None)"

definition as_argument :: "js_value \<Rightarrow> number option option" where
  "as_argument v =
     (case v of VUndefined \<Rightarrow> Some None | VNumber n \<Rightarrow> Some (Some n) | _ \<Rightarrow> None)"

definition spread :: "heap \<Rightarrow> js_value \<Rightarrow> number option list option" where
  "spread h v = do { values \<leftarrow> values_of h v; those (map as_argument values) }"

text \<open>The callback of \<open>filter\<close>: \<open>element.text && element.text.trim()\<close>.\<close>

definition has_text_callback :: "js_value \<Rightarrow> js_value effect" where
  "has_text_callback element h =
     do { text \<leftarrow> property h element ''text'';
          if truthy text then
            (case text of VString s \<Rightarrow> Some (VString (trim s), h) | _ \<Rightarrow> None)
          else Some (text, h) }"

text \<open>The callbacks \<open>p => p[0]\<close> and \<open>p => p[1]\<close>.\<close>

definition entry_callback :: "nat \<Rightarrow> js_value \<Rightarrow> js_value effect" where
  "entry_callback k p h = do { v \<leftarrow> element_at h p k; Some (v, h) }"

text \<open>
  The callback of the outer \<open>map\<close>, statement by statement: \<open>element.metadata || {}\<close>
  (which allocates the empty object), the three-part condition, the two inner
  \<open>map\<close> calls (which allocate \<open>xs\<close> and \<open>ys\<close>), the four spreads, and the object
  literal, which reads \<open>element.text\<close> and allocates the item.
\<close>

definition to_text_item_callback :: "js_value \<Rightarrow> js_value effect" where
  "to_text_item_callback element h =
     do { m \<leftarrow> property h element ''metadata'';
          (metadata, h1) \<leftarrow> Some (if truthy m then (m, h) else allocate (JsObject []) h);
          coordinates \<leftarrow> property h1 metadata ''coordinates'';
          points \<leftarrow> (if truthy coordinates then property h1 coordinates ''points''
                      else Some coordinates);
          has_points \<leftarrow> (if truthy points then map_option (\<lambda>n. 0 < n) (array_length h1 points)
                          else Some False);
          ((x, y, width, height), h4) \<leftarrow>
            (if has_points then
               do { points \<leftarrow> property h1 coordinates ''points'';
                    (xs, h2) \<leftarrow> array_map (entry_callback 0) points h1;
                    (ys, h3) \<leftarrow> array_map (entry_callback 1) points h2;
                    min_args \<leftarrow> spread h3 xs;
                    let x = Math_min min_args;
                    max_args \<leftarrow> spread h3 xs;
                    let maxX = Math_max max_args;
                    let width = js_minus maxX x;
                    y_max_args \<leftarrow> spread h3 ys;
                    let maxY = Math_max y_max_args;
                    y_min_args \<leftarrow> spread h3 ys;
                    let minY = Math_min y_min_args;
                    let height = js_minus maxY minY;
                    layout_height \<leftarrow> property h3 coordinates ''layout_height'';
                    pageHeight \<leftarrow> (if truthy layout_height then as_number layout_height
                                      else Some (double 792));
                    let y = js_minus pageHeight maxY;
                    Some ((x, y, width, height), h3) }
             else Some ((double 0, double 0, double 100, double 12), h1));
          text \<leftarrow> property h4 element ''text'';
          Some (allocate
                 (JsObject [(''text'', text), (''x'', VNumber x), (''y'', VNumber y),
                            (''width'', VNumber width), (''height'', VNumber height),
                            (''fontName'', VString (ascii ''UnknownFont'')),
                            (''hasEOL'', VBoolean True)]) h4) }"

text \<open>The function: \<open>elements.filter(...).map(...)\<close>, and the array it returns.\<close>

definition convert_on_heap :: "js_value \<Rightarrow> js_value effect" where
  "convert_on_heap elements h =
     do { (filtered, h1) \<leftarrow> array_filter has_text_callback elements h;
          (textItems, h2) \<leftarrow> array_map to_text_item_callback filtered h1;
          Some (textItems, h2) }"

text \<open>
  What a heap holds at a value, read as a value of the data model: \<open>None\<close> when the
  heap does not hold a well-typed one there.
\<close>

definition read_string :: "js_value \<Rightarrow> js_string option" where
  "read_string v = (case v of VString s \<Rightarrow> Some s | _ \<Rightarrow> None)"

definition read_boolean :: "js_value \<Rightarrow> bool option" where
  "read_boolean v = (case v of VBoolean b \<Rightarrow> Some b | _ \<Rightarrow> None)"

definition read_optional :: "(js_value \<Rightarrow> 'a option) \<Rightarrow> js_value \<Rightarrow> 'a option option" where
  "read_optional read v = (if v = VUndefined then Some None else map_option Some (read v))"

definition read_array :: "heap \<Rightarrow> (js_value \<Rightarrow> 'a option) \<Rightarrow> js_value \<Rightarrow> 'a list option" where
  "read_array h read v = do { values \<leftarrow> values_of h v; those (map read values) }"

definition read_coordinates :: "heap \<Rightarrow> js_value \<Rightarrow> Coordinates option" where
  "read_coordinates h v =
     do { props \<leftarrow> fields_of h v;
          ps \<leftarrow> read_array h (read_array h as_number) (lookup props ''points'');
          s \<leftarrow> read_string (lookup props ''system'');
          w \<leftarrow> as_number (lookup props ''layout_width'');
          lh \<leftarrow> as_number (lookup props ''layout_height'');
          Some \<lparr>points = ps, system = s, layout_width = w, layout_height = lh\<rparr> }"

definition read_metadata :: "heap \<Rightarrow> js_value \<Rightarrow> Metadata option" where
  "read_metadata h v =
     do { props \<leftarrow> fields_of h v;
          f \<leftarrow> read_optional read_string (lookup props ''filename'');
          n \<leftarrow> read_optional as_number (lookup props ''page_number'');
          c \<leftarrow> read_optional (read_coordinates h) (lookup props ''coordinates'');
          Some \<lparr>filename = f, page_number = n, coordinates = c\<rparr> }"

definition read_element :: "heap \<Rightarrow> js_value \<Rightarrow> UnstructuredElement option" where
  "read_element h v =
     do { props \<leftarrow> fields_of h v;
          ty \<leftarrow> read_string (lookup props ''type'');
          tx \<leftarrow> read_string (lookup props ''text'');
          md \<leftarrow> read_optional (read_metadata h) (lookup props ''metadata'');
          Some \<lparr>el_type = ty, el_text = tx, el_metadata = md\<rparr> }"

definition read_text_item :: "heap \<Rightarrow> js_value \<Rightarrow> TextItem option" where
  "read_text_item h v =
     do { props \<leftarrow> fields_of h v;
          tx \<leftarrow> read_string (lookup props ''text'');
          x \<leftarrow> as_number (lookup props ''x'');
          y \<leftarrow> as_number (lookup props ''y'');
          w \<leftarrow> as_number (lookup props ''width'');
          ht \<leftarrow> as_number (lookup props ''height'');
          f \<leftarrow> read_string (lookup props ''fontName'');
          e \<leftarrow> read_boolean (lookup props ''hasEOL'');
          Some \<lparr>item_text = tx, item_x = x, item_y = y, item_width = w, item_height = ht,
                item_fontName = f, item_hasEOL = e\<rparr> }"

text \<open>The text items of the array a run returns, read from the heap it leaves.\<close>

definition returned_items :: "(js_value \<times> heap) option \<Rightarrow> TextItem list option" where
  "returned_items r =
     (case r of None \<Rightarrow> None | Some (v, h) \<Rightarrow> read_array h (read_text_item h) v)"

section \<open>Notions used to state the properties\<close>

text \<open>A string made of white space only (the empty string included).\<close>

definition whitespace_only :: "js_string \<Rightarrow> bool" where
  "whitespace_only s \<longleftrightarrow> list_all isWhiteSpace s"

text \<open>The x-values and the y-values of the points of a bounding box.\<close>

definition point_xs :: "Coordinates \<Rightarrow> number option list" where
  "point_xs c = map (\<lambda>p. index p 0) (points c)"

definition point_ys :: "Coordinates \<Rightarrow> number option list" where
  "point_ys c = map (\<lambda>p. index p 1) (points c)"

text \<open>
  What the three \<open>catch\<close> blocks make of a thrown value: an \<open>Error\<close> becomes a new
  \<open>Error\<close> whose message is the old one behind a prefix, any other value stays.
\<close>

definition rethrown :: "string \<Rightarrow> thrown \<Rightarrow> thrown" where
  "rethrown prefix e =
     (case e of
        Error name msg \<Rightarrow> new_Error (ascii prefix @ msg)
      | NonError v \<Rightarrow> NonError v)"

text \<open>
  The coordinates of an element when it carries coordinate points: the case in which
  the conversion computes a bounding box.
\<close>

definition coordinate_points :: "UnstructuredElement \<Rightarrow> Coordinates option" where
  "coordinate_points element =
     (case el_metadata element of
        None \<Rightarrow> None
      | Some md \<Rightarrow>
          (case coordinates md of
             None \<Rightarrow> None
           | Some c \<Rightarrow> if points c = [] then None else Some c))"

text \<open>
  A list of values has an extent when none of them is NaN (or undefined) and they are
  neither all \<open>+Infinity\<close> nor all \<open>-Infinity\<close>. A point is finite when it has a
  finite number at index 0 and at index 1.
\<close>

definition has_extent :: "number option list \<Rightarrow> bool" where
  "has_extent vs \<longleftrightarrow>
     list_all (\<lambda>v. ToNumber v \<noteq> NaN) vs \<and>
     \<not> list_all (\<lambda>v. ToNumber v = Infinity) vs \<and>
     \<not> list_all (\<lambda>v. ToNumber v = NegInfinity) vs"

definition is_finite :: "number option \<Rightarrow> bool" where
  "is_finite v = (case v of Some (Num k) \<Rightarrow> True | Some NegZero \<Rightarrow> True | _ \<Rightarrow> False)"

definition finite_point :: "number list \<Rightarrow> bool" where
  "finite_point p \<longleftrightarrow> is_finite (index p 0) \<and> is_finite (index p 1)"

text \<open>
  The place of a number in the order of the numbers: \<open>-Infinity\<close>, then the finite
  values by their value (the two zeros together), then \<open>+Infinity\<close>.
\<close>

fun rank :: "number \<Rightarrow> int \<times> int" where
  "rank NegInfinity = (- 1, 0)"
| "rank Infinity = (1, 0)"
| "rank NaN = (2, 0)"
| "rank v = (0, finite_value v)"

text \<open>
  The page height in the words of the specification: the layout height when that
  value is non-zero, and 792 otherwise. The values the points have at an index, in the
  words of the specification: those of the points that have one.
\<close>

definition stated_pageHeight :: "Coordinates \<Rightarrow> number" where
  "stated_pageHeight c =
     (if layout_height c \<noteq> Num 0 \<and> layout_height c \<noteq> NegZero then layout_height c
      else double 792)"

definition present :: "number option list \<Rightarrow> number option list" where
  "present vs = filter (\<lambda>v. v \<noteq> None) vs"

section \<open>The later stages, as the specification describes them\<close>

text \<open>
  The three stages after the reader, \<open>groupTextItemsIntoLines\<close>,
  \<open>groupLinesIntoSections\<close> and \<open>extractResumeFromSections\<close>, are imported by
  the pipeline from modules that are not among the source files. This section follows
  sections 3 and 4 of the specification instead, and takes as parameters the heuristics
  that the specification does not fix.
\<close>

text \<open>
  Modelled from the spec: the aggregate bounding box of a line (section 3), with the
  position and size a fragment has; the module of \<open>groupTextItemsIntoLines\<close> is
  missing from the source files.
\<close>

record BoundingBox =
  box_x :: number
  box_y :: number
  box_width :: number
  box_height :: number

text \<open>
  Modelled from the spec: the \<open>Line\<close> of section 3 of the specification, "an ordered
  sequence of TextFragment belonging to one visual row, plus derived aggregate bounding
  box". It is the output type of \<open>groupTextItemsIntoLines\<close>, whose module is missing
  from the source files.
\<close>

record Line =
  line_fragments :: "TextItem list"
  line_box :: BoundingBox

text \<open>
  Modelled from the spec: the \<open>Section\<close> of section 3, "a label (inferred heading
  text, possibly empty/unknown) plus an ordered sequence of Line"; the output type of
  \<open>groupLinesIntoSections\<close>, whose module is missing from the source files.
\<close>

record Section =
  section_label :: js_string
  section_lines :: "Line list"

text \<open>
  Modelled from the spec: the profile of a \<open>ResumeRecord\<close> (section 3): "name, email,
  phone, links", each optional; the module of \<open>extractResumeFromSections\<close> is missing
  from the source files.
\<close>

record Profile =
  profile_name :: "js_string option"
  profile_email :: "js_string option"
  profile_phone :: "js_string option"
  profile_links :: "js_string list"

text \<open>
  Modelled from the spec: a work experience or education entry of a \<open>ResumeRecord\<close>,
  with the title, organization and dates of the "title + organization + date-range"
  cluster of section 4.3, each optional; the module of \<open>extractResumeFromSections\<close>
  is missing from the source files.
\<close>

record Entry =
  entry_title :: "js_string option"
  entry_organization :: "js_string option"
  entry_dates :: "js_string option"

text \<open>
  Modelled from the spec: the \<open>ResumeRecord\<close> of section 3, "profile (name, email,
  phone, links), work experience entries, education entries, skills, and free-text
  sections not matched by any extractor". It is the output type of
  \<open>extractResumeFromSections\<close>, whose module is missing from the source files.
\<close>

record ResumeRecord =
  resume_profile :: Profile
  resume_experience :: "Entry list"
  resume_education :: "Entry list"
  resume_skills :: "js_string list"
  resume_additional :: "Section list"

text \<open>
  Modelled from the spec: the known categories of section 4.3, against which the missing
  \<open>extractResumeFromSections\<close> matches a section label.
\<close>

datatype category =
    ProfileCategory
  | ExperienceCategory
  | EducationCategory
  | SkillsCategory
  | SummaryCategory
  | ProjectsCategory
  | CertificationsCategory
  | OtherCategory

text \<open>
  Modelled from the spec: the known categories in the order section 4.3 lists them,
  which agrees with its priority order for ties (profile, experience, education,
  skills, other); used by the missing \<open>extractResumeFromSections\<close>.
\<close>

definition known_categories :: "category list" where
  "known_categories =
     [ProfileCategory, ExperienceCategory, EducationCategory, SkillsCategory,
      SummaryCategory, ProjectsCategory, CertificationsCategory, OtherCategory]"

text \<open>
  Modelled from the spec: what sections 3 and 4 leave to heuristics, as parameters of the
  three missing stages. \<open>beyond_tolerance\<close> says whether a fragment's vertical
  position differs from the current line's reference baseline by more than the
  tolerance threshold;
  \<open>aggregate_box\<close> derives the bounding box of a line; \<open>is_heading\<close> classifies a
  line as a heading; \<open>label_matches\<close> is the keyword match of a section label against
  a category; \<open>name_in\<close>, \<open>email_in\<close>, \<open>phone_in\<close> and \<open>url_in\<close> are the
  line-level patterns; \<open>starts_entry\<close> detects the line that opens a "title +
  organization + date-range" cluster and \<open>entry_from\<close> reads the entry off a
  cluster; \<open>skills_in\<close> reads the skills off a line.
\<close>

record heuristics =
  beyond_tolerance :: "TextItem list \<Rightarrow> TextItem \<Rightarrow> bool"
  aggregate_box :: "TextItem list \<Rightarrow> BoundingBox"
  is_heading :: "Line \<Rightarrow> bool"
  label_matches :: "category \<Rightarrow> js_string \<Rightarrow> bool"
  name_in :: "js_string \<Rightarrow> js_string option"
  email_in :: "js_string \<Rightarrow> js_string option"
  phone_in :: "js_string \<Rightarrow> js_string option"
  url_in :: "js_string \<Rightarrow> js_string option"
  starts_entry :: "Line \<Rightarrow> bool"
  entry_from :: "Line list \<Rightarrow> Entry"
  skills_in :: "js_string \<Rightarrow> js_string list"

text \<open>
  Modelled from the spec: the Line Grouper of section 4.1, for the missing
  \<open>groupTextItemsIntoLines\<close>. The fragments are iterated in order with a current-line
  accumulator; a fragment starts a new line when it is beyond the tolerance of the
  current line or when the previous fragment had \<open>hasEOL = true\<close>.
\<close>

fun accumulate_lines :: "heuristics \<Rightarrow> TextItem list \<Rightarrow> TextItem list \<Rightarrow> TextItem list list" where
  "accumulate_lines hs current [] = (if current = [] then [] else [current])"
| "accumulate_lines hs current (fragment # rest) =
     (if current \<noteq> [] \<and> (beyond_tolerance hs current fragment \<or> item_hasEOL (last current))
      then current # accumulate_lines hs [fragment] rest
      else accumulate_lines hs (current @ [fragment]) rest)"

text \<open>
  Modelled from the spec: the order of the fragments of a line in the missing
  \<open>groupTextItemsIntoLines\<close>; by section 4.1 they are sorted by horizontal
  position. A fragment is inserted before the first one that lies to its right.
\<close>

fun insert_by_x :: "TextItem \<Rightarrow> TextItem list \<Rightarrow> TextItem list" where
  "insert_by_x fragment [] = [fragment]"
| "insert_by_x fragment (g # gs) =
     (if js_lt (item_x fragment) (item_x g) then fragment # g # gs
      else g # insert_by_x fragment gs)"

text \<open>
  Modelled from the spec: the sort by horizontal position of section 4.1, as an
  insertion sort, for the missing \<open>groupTextItemsIntoLines\<close>.
\<close>

definition sort_by_x :: "TextItem list \<Rightarrow> TextItem list" where
  "sort_by_x row = foldr insert_by_x row []"

text \<open>
  Modelled from the spec: the missing \<open>groupTextItemsIntoLines\<close> as a whole
  (section 4.1): the rows of the accumulator, without those that hold only fragments of
  empty or whitespace-only text ("a fragment with empty/whitespace-only text and no
  other content on its line is dropped"), each sorted and with its bounding box.
\<close>

definition spec_groupTextItemsIntoLines :: "heuristics \<Rightarrow> TextItem list \<Rightarrow> Line list" where
  "spec_groupTextItemsIntoLines hs textItems =
     map (\<lambda>row. \<lparr>line_fragments = sort_by_x row, line_box = aggregate_box hs (sort_by_x row)\<rparr>)
       (filter (\<lambda>row. \<not> list_all (\<lambda>fragment. whitespace_only (item_text fragment)) row)
          (accumulate_lines hs [] textItems))"

text \<open>
  Modelled from the spec: the words of a text, its maximal runs of characters that are
  not whitespace; section 4.1 has the missing \<open>groupTextItemsIntoLines\<close> collapse the
  runs of whitespace.
\<close>

fun words_from :: "js_string \<Rightarrow> js_string \<Rightarrow> js_string list" where
  "words_from word [] = (if word = [] then [] else [word])"
| "words_from word (c # cs) =
     (if isWhiteSpace c then (if word = [] then words_from [] cs else word # words_from [] cs)
      else words_from (word @ [c]) cs)"

text \<open>
  Modelled from the spec: the join "with a single space" of section 4.1, for the missing
  \<open>groupTextItemsIntoLines\<close>.
\<close>

fun join_with_space :: "js_string list \<Rightarrow> js_string" where
  "join_with_space [] = []"
| "join_with_space [word] = word"
| "join_with_space (word # rest) = word @ [0x20] @ join_with_space rest"

text \<open>
  Modelled from the spec: the text of a line, section 4.1: its fragments "joined with a
  single space, collapsing runs of whitespace"; the line is made by the missing
  \<open>groupTextItemsIntoLines\<close>.
\<close>

definition line_text :: "Line \<Rightarrow> js_string" where
  "line_text line =
     join_with_space (concat (map (\<lambda>fragment. words_from [] (item_text fragment))
                                (line_fragments line)))"

text \<open>
  Modelled from the spec: the Section Grouper of section 4.2, for the missing
  \<open>groupLinesIntoSections\<close>. A heading starts a new section whose label is the
  heading's text; the following lines belong to it until the next heading. (The
  example of section 8 has the lines after the heading in the section, and the
  heading as its label.)
\<close>

fun split_sections :: "heuristics \<Rightarrow> Section \<Rightarrow> Line list \<Rightarrow> Section list" where
  "split_sections hs current [] = [current]"
| "split_sections hs current (line # rest) =
     (if is_heading hs line
      then current # split_sections hs \<lparr>section_label = line_text line, section_lines = []\<rparr> rest
      else split_sections hs (current\<lparr>section_lines := section_lines current @ [line]\<rparr>) rest)"

text \<open>
  Modelled from the spec: the initial section of the missing
  \<open>groupLinesIntoSections\<close>, labelled unknown, before any line is added to it.
\<close>

definition unknown_section :: Section where
  "unknown_section = \<lparr>section_label = ascii ''unknown'', section_lines = []\<rparr>"

text \<open>
  Modelled from the spec: the missing \<open>groupLinesIntoSections\<close> as a whole
  (section 4.2): the lines before the first heading form the initial unknown section,
  which is there also when it has no line ("a single empty/unknown Section" on no
  fragment).
\<close>

definition spec_groupLinesIntoSections :: "heuristics \<Rightarrow> Line list \<Rightarrow> Section list" where
  "spec_groupLinesIntoSections hs lines = split_sections hs unknown_section lines"

text \<open>
  Modelled from the spec: the category of a section in the missing
  \<open>extractResumeFromSections\<close>, section 4.3: the first known category, in priority
  order, whose keywords match the label; the initial unknown section is the profile
  section (section 4.2 calls it "unknown/profile" and has the extractor look for
  contact fields in it).
\<close>

definition category_of :: "heuristics \<Rightarrow> Section \<Rightarrow> category option" where
  "category_of hs section =
     (if section_label section = ascii ''unknown'' then Some ProfileCategory
      else find (\<lambda>c. label_matches hs c (section_label section)) known_categories)"

text \<open>
  Modelled from the spec: the lines of the sections of one category, in order, from
  which the missing \<open>extractResumeFromSections\<close> reads the fields of that category.
\<close>

definition lines_in :: "heuristics \<Rightarrow> category \<Rightarrow> Section list \<Rightarrow> Line list" where
  "lines_in hs c sections =
     concat (map section_lines (filter (\<lambda>section. category_of hs section = Some c) sections))"

text \<open>
  Modelled from the spec: a line-level rule of section 4.3 in the missing
  \<open>extractResumeFromSections\<close>: a field is the first match of its pattern among the
  lines, and absent when no line matches.
\<close>

fun first_match :: "(js_string \<Rightarrow> js_string option) \<Rightarrow> Line list \<Rightarrow> js_string option" where
  "first_match pattern [] = None"
| "first_match pattern (line # rest) =
     (case pattern (line_text line) of
        Some found \<Rightarrow> Some found
      | None \<Rightarrow> first_match pattern rest)"

text \<open>
  Modelled from the spec: the sub-grouping pass of section 4.3 in the missing
  \<open>extractResumeFromSections\<close>: the entries of a section are read off its clusters
  of lines, a cluster running from a line that opens an entry to the next such line.
\<close>

fun clusters :: "heuristics \<Rightarrow> Line list \<Rightarrow> Line list \<Rightarrow> Line list list" where
  "clusters hs current [] = (if current = [] then [] else [current])"
| "clusters hs current (line # rest) =
     (if current \<noteq> [] \<and> starts_entry hs line then current # clusters hs [line] rest
      else clusters hs (current @ [line]) rest)"

text \<open>
  Modelled from the spec: the Field Extractor of section 4.3, for the missing
  \<open>extractResumeFromSections\<close>. Every field is optional, and a section of no
  extracted category is kept under the additional sections.
\<close>

definition spec_extractResumeFromSections :: "heuristics \<Rightarrow> Section list \<Rightarrow> ResumeRecord" where
  "spec_extractResumeFromSections hs sections =
     \<lparr>resume_profile =
        \<lparr>profile_name = first_match (name_in hs) (lines_in hs ProfileCategory sections),
         profile_email = first_match (email_in hs) (lines_in hs ProfileCategory sections),
         profile_phone = first_match (phone_in hs) (lines_in hs ProfileCategory sections),
         profile_links = List.map_filter (\<lambda>line. url_in hs (line_text line))
                           (lines_in hs ProfileCategory sections)\<rparr>,
      resume_experience =
        map (entry_from hs) (clusters hs [] (lines_in hs ExperienceCategory sections)),
      resume_education =
        map (entry_from hs) (clusters hs [] (lines_in hs EducationCategory sections)),
      resume_skills =
        concat (map (\<lambda>line. skills_in hs (line_text line))
                  (lines_in hs SkillsCategory sections)),
      resume_additional =
        filter (\<lambda>section. category_of hs section \<notin>
                             {Some ProfileCategory, Some ExperienceCategory,
                              Some EducationCategory, Some SkillsCategory}) sections\<rparr>"

text \<open>
  Modelled from the spec: the "ResumeRecord with all fields absent" of section 8,
  which the missing \<open>extractResumeFromSections\<close> is to return on no fragment.
\<close>

definition empty_resume :: ResumeRecord where
  "empty_resume =
     \<lparr>resume_profile = \<lparr>profile_name = None, profile_email = None, profile_phone = None,
                          profile_links = []\<rparr>,
      resume_experience = [], resume_education = [], resume_skills = [],
      resume_additional = []\<rparr>"

text \<open>
  Modelled from the spec: the three missing stages as the pipeline takes them; by
  sections 4.3 and 7 of the specification they raise no failure.
\<close>

definition spec_stages :: "heuristics \<Rightarrow> (Line list, Section list, ResumeRecord) stages" where
  "spec_stages hs =
     \<lparr>groupTextItemsIntoLines = (\<lambda>textItems. Inr (spec_groupTextItemsIntoLines hs textItems)),
      groupLinesIntoSections = (\<lambda>lines. Inr (spec_groupLinesIntoSections hs lines)),
      extractResumeFromSections = (\<lambda>sections. Inr (spec_extractResumeFromSections hs sections))\<rparr>"

section \<open>Sample inputs\<close>

definition sample_coordinates :: Coordinates where
  "sample_coordinates =
     \<lparr>points = [[double 72, double 100], [double 72, double 112],
                [double 172, double 112], [double 172, double 100]],
      system = ascii ''PixelSpace'', layout_width = double 612, layout_height = double 792\<rparr>"

definition sample_element :: UnstructuredElement where
  "sample_element =
     \<lparr>el_type = ascii ''Title'', el_text = ascii ''John Doe'',
      el_metadata = Some \<lparr>filename = Some (ascii ''resume.pdf''),
                            page_number = Some (double 1),
                            coordinates = Some sample_coordinates\<rparr>\<rparr>"

definition blank_element :: UnstructuredElement where
  "blank_element = \<lparr>el_type = ascii ''Text'', el_text = ascii ''  '', el_metadata = None\<rparr>"

definition bare_element :: UnstructuredElement where
  "bare_element =
     \<lparr>el_type = ascii ''NarrativeText'', el_text = ascii ''john@x.com'', el_metadata = None\<rparr>"

text \<open>
  An element whose layout height is NaN, one whose only point has no y, and one whose
  second point has no y.
\<close>

definition nan_height_element :: UnstructuredElement where
  "nan_height_element =
     \<lparr>el_type = ascii ''Title'', el_text = ascii ''John Doe'',
      el_metadata = Some \<lparr>filename = None, page_number = None,
                            coordinates = Some (sample_coordinates\<lparr>layout_height := NaN\<rparr>)\<rparr>\<rparr>"

definition short_point_element :: UnstructuredElement where
  "short_point_element =
     \<lparr>el_type = ascii ''Title'', el_text = ascii ''John Doe'',
      el_metadata = Some \<lparr>filename = None, page_number = None,
                            coordinates = Some (sample_coordinates\<lparr>points := [[double 5]]\<rparr>)\<rparr>\<rparr>"

definition ragged_element :: UnstructuredElement where
  "ragged_element =
     \<lparr>el_type = ascii ''Title'', el_text = ascii ''John Doe'',
      el_metadata = Some \<lparr>filename = None, page_number = None,
                            coordinates = Some (sample_coordinates
                              \<lparr>points := [[double 72, double 100], [double 172]]\<rparr>)\<rparr>\<rparr>"

definition sample_file :: File where
  "sample_file =
     \<lparr>file_bytes = [], file_name = ascii ''resume.pdf'', file_type = ascii ''application/pdf''\<rparr>"

definition configured_env :: "js_string \<Rightarrow> js_string option" where
  "configured_env k =
     (if k = ascii ''NEXT_PUBLIC_UNSTRUCTURED_API_KEY'' then Some (ascii ''secret'') else None)"

text \<open>A world without network: every \<open>fetch\<close> rejects with the given value.\<close>

definition failing_world :: "thrown \<Rightarrow> world" where
  "failing_world e = \<lparr>env = configured_env, fetch = (\<lambda>req. Inl e)\<rparr>"

definition fetch_failed :: thrown where
  "fetch_failed = Error (ascii ''TypeError'') (ascii ''Failed to fetch'')"

text \<open>A world whose every \<open>fetch\<close> succeeds, the service answering with the given elements.\<close>

definition serving_world :: "UnstructuredElement list \<Rightarrow> world" where
  "serving_world elements =
     \<lparr>env = configured_env,
      fetch = (\<lambda>req. Inr \<lparr>ok = True, status = 200, statusText = ascii ''OK'',
                           text_result = Inr [], json_result = Inr elements,
                           blob_result = Inr \<lparr>blob_bytes = [],
                                                blob_type = ascii ''application/pdf''\<rparr>\<rparr>)\<rparr>"

text \<open>Stand-ins for the three later stages, to run the pipeline on the samples.\<close>

definition sample_stages :: "(js_string list, js_string list list, nat) stages" where
  "sample_stages =
     \<lparr>groupTextItemsIntoLines = (\<lambda>textItems. Inr (map item_text textItems)),
      groupLinesIntoSections = (\<lambda>lines. Inr [lines]),
      extractResumeFromSections = (\<lambda>sections. Inr (length (concat sections)))\<rparr>"

text \<open>
  Heuristics to run the stages of the specification on the samples: a line is a heading
  when its text is made of capital letters only, any line has a name, and a line with
  an at sign is an e-mail address.
\<close>

definition sample_heuristics :: heuristics where
  "sample_heuristics =
     \<lparr>beyond_tolerance = (\<lambda>current fragment. item_y fragment \<noteq> item_y (hd current)),
      aggregate_box = (\<lambda>row. \<lparr>box_x = double 0, box_y = double 0,
                                box_width = double 0, box_height = double 0\<rparr>),
      is_heading = (\<lambda>line. list_all (\<lambda>c. c \<in> set (ascii ''ABCDEFGHIJKLMNOPQRSTUVWXYZ''))
                               (line_text line)),
      label_matches = (\<lambda>c label. False),
      name_in = (\<lambda>s. Some s),
      email_in = (\<lambda>s. if of_char CHR ''@'' \<in> set s then Some s else None),
      phone_in = (\<lambda>s. None),
      url_in = (\<lambda>s. None),
      starts_entry = (\<lambda>line. True),
      entry_from = (\<lambda>cluster. \<lparr>entry_title = None, entry_organization = None,
                                   entry_dates = None\<rparr>),
      skills_in = (\<lambda>s. [s])\<rparr>"

text \<open>
  A heap holding an array of two elements at address 7, the first with a box of two
  points and the second blank; the first element as a value; and a callback that
  writes, emptying whatever is at address 0.
\<close>

definition sample_heap :: heap where
  "sample_heap =
     [JsArray [VNumber (double 72), VNumber (double 100)],
      JsArray [VNumber (double 172), VNumber (double 112)],
      JsArray [VReference 0, VReference 1],
      JsObject [(''points'', VReference 2), (''system'', VString (ascii ''PixelSpace'')),
                (''layout_width'', VNumber (double 612)),
                (''layout_height'', VNumber (double 792))],
      JsObject [(''coordinates'', VReference 3)],
      JsObject [(''type'', VString (ascii ''Title'')), (''text'', VString (ascii ''John Doe'')),
                (''metadata'', VReference 4)],
      JsObject [(''type'', VString (ascii ''Text'')), (''text'', VString (ascii ''  ''))],
      JsArray [VReference 5, VReference 6]]"

definition heap_element :: UnstructuredElement where
  "heap_element =
     \<lparr>el_type = ascii ''Title'', el_text = ascii ''John Doe'',
      el_metadata = Some \<lparr>filename = None, page_number = None,
                            coordinates = Some (sample_coordinates
                              \<lparr>points := [[double 72, double 100], [double 172, double 112]]\<rparr>)\<rparr>\<rparr>"

definition overwriting_callback :: "js_value \<Rightarrow> js_value effect" where
  "overwriting_callback v h = Some (v, h[0 := JsArray []])"

section \<open>Properties of trim and of the conversion of one element\<close>

lemma trim_empty_iff: "trim s = [] \<longleftrightarrow> (\<forall>c\<in>set s. isWhiteSpace c)"
proof -
  have "trim s = [] \<longleftrightarrow> (\<forall>c\<in>set (dropWhile isWhiteSpace s). isWhiteSpace c)"
    by (simp add: trim_def dropWhile_eq_Nil_conv)
  also have "\<dots> \<longleftrightarrow> dropWhile isWhiteSpace s = []"
  proof
    assume all: "\<forall>c\<in>set (dropWhile isWhiteSpace s). isWhiteSpace c"
    show "dropWhile isWhiteSpace s = []"
    proof (rule ccontr)
      assume ne: "dropWhile isWhiteSpace s \<noteq> []"
      then have "\<not> isWhiteSpace (hd (dropWhile isWhiteSpace s))"
        by (rule hd_dropWhile)
      moreover have "hd (dropWhile isWhiteSpace s) \<in> set (dropWhile isWhiteSpace s)"
        using ne by simp
      ultimately show False using all by blast
    qed
  next
    assume nil: "dropWhile isWhiteSpace s = []"
    show "\<forall>c\<in>set (dropWhile isWhiteSpace s). isWhiteSpace c"
      unfolding nil by simp
  qed
  also have "\<dots> \<longleftrightarrow> (\<forall>c\<in>set s. isWhiteSpace c)"
    by (simp add: dropWhile_eq_Nil_conv)
  finally show ?thesis .
qed

lemma has_text_iff: "has_text element \<longleftrightarrow> \<not> (\<forall>c\<in>set (el_text element). isWhiteSpace c)"
  by (auto simp: has_text_def trim_empty_iff)

lemma to_text_item_text: "item_text (to_text_item element) = el_text element"
  by (simp add: to_text_item_def Let_def split: option.splits)

lemma to_text_item_hasEOL: "item_hasEOL (to_text_item element)"
  by (simp add: to_text_item_def Let_def split: option.splits)

lemma to_text_item_fontName: "item_fontName (to_text_item element) = ascii ''UnknownFont''"
  by (simp add: to_text_item_def Let_def split: option.splits)

lemma convert_not_isEmptySpace:
  "textItem \<in> set (convertUnstructuredToTextItems elements) \<Longrightarrow> \<not> isEmptySpace textItem"
  by (auto simp: convertUnstructuredToTextItems_def isEmptySpace_def to_text_item_hasEOL)

lemma readDocument_success:
  "parseDocumentWithUnstructured w file = Inr elements \<Longrightarrow>
   readDocument w file = Inr (convertUnstructuredToTextItems elements)"
  using convert_not_isEmptySpace [of _ elements]
  by (simp add: readDocument_def Let_def filter_id_conv)

section \<open>The conversion, the reader and the pipeline\<close>

lemma has_text_whitespace_only: "has_text element \<longleftrightarrow> \<not> whitespace_only (el_text element)"
  by (simp add: has_text_iff whitespace_only_def list_all_iff)

text \<open>
  Claim C4. For every element list, the conversion drops exactly the elements whose
  text is empty or made of white space only; each remaining element yields one text
  item carrying that element's text, and the items stand in the order of their
  elements: the texts of the output are the texts of the non-blank elements, in order.
\<close>

theorem convert_keeps_nonblank_text:
  "map item_text (convertUnstructuredToTextItems elements) =
   map el_text (filter (\<lambda>element. \<not> whitespace_only (el_text element)) elements)"
proof -
  have "filter has_text elements =
        filter (\<lambda>element. \<not> whitespace_only (el_text element)) elements"
    by (rule filter_cong) (simp_all add: has_text_whitespace_only)
  then show ?thesis
    by (simp add: convertUnstructuredToTextItems_def to_text_item_text comp_def)
qed

lemma has_text_samples:
  "has_text sample_element" "\<not> has_text blank_element" "has_text bare_element"
  "has_text nan_height_element" "has_text short_point_element" "has_text ragged_element"
  by (simp_all add: has_text_def trim_def isWhiteSpace_def ascii_def sample_element_def
      blank_element_def bare_element_def nan_height_element_def short_point_element_def
      ragged_element_def)

text \<open>On three elements, the middle one blank: two items, with the two texts.\<close>

theorem convert_keeps_nonblank_text_witness:
  "map item_text (convertUnstructuredToTextItems [sample_element, blank_element, bare_element]) =
     [ascii ''John Doe'', ascii ''john@x.com''] \<and>
   whitespace_only (el_text blank_element)"
  using convert_keeps_nonblank_text [of "[sample_element, blank_element, bare_element]"]
    has_text_samples
  by (simp add: has_text_whitespace_only sample_element_def bare_element_def)

text \<open>
  Claim C7. Every text item the conversion produces has \<open>hasEOL = true\<close> and
  \<open>fontName = "UnknownFont"\<close>, whatever the element it comes from.
\<close>

theorem convert_flags:
  "\<forall>textItem\<in>set (convertUnstructuredToTextItems elements).
     item_hasEOL textItem = True \<and> item_fontName textItem = ascii ''UnknownFont''"
  by (auto simp: convertUnstructuredToTextItems_def to_text_item_hasEOL to_text_item_fontName)

text \<open>The item of the sample element.\<close>

theorem convert_flags_witness:
  "convertUnstructuredToTextItems [sample_element] \<noteq> [] \<and>
   item_hasEOL (hd (convertUnstructuredToTextItems [sample_element])) = True \<and>
   item_fontName (hd (convertUnstructuredToTextItems [sample_element])) = ascii ''UnknownFont''"
proof -
  have ne: "convertUnstructuredToTextItems [sample_element] \<noteq> []"
    by (simp add: convertUnstructuredToTextItems_def has_text_samples)
  then have "hd (convertUnstructuredToTextItems [sample_element])
               \<in> set (convertUnstructuredToTextItems [sample_element])"
    by (rule hd_in_set)
  with convert_flags [of "[sample_element]"] ne show ?thesis by blast
qed

lemma pipeline_tail:
  "and_then (invoke c r) (\<lambda>textItems.
     and_then (invoke (Call_groupTextItemsIntoLines textItems)
                 (groupTextItemsIntoLines st textItems)) (\<lambda>lines.
     and_then (invoke (Call_groupLinesIntoSections lines)
                 (groupLinesIntoSections st lines)) (\<lambda>sections.
     and_then (invoke (Call_extractResumeFromSections sections)
                 (extractResumeFromSections st sections)) (\<lambda>resume.
     returns resume)))) calls =
   (case r of
      Inl e \<Rightarrow> (Inl e, calls @ [c])
    | Inr textItems \<Rightarrow>
        (case groupTextItemsIntoLines st textItems of
           Inl e \<Rightarrow> (Inl e, calls @ [c, Call_groupTextItemsIntoLines textItems])
         | Inr lines \<Rightarrow>
             (case groupLinesIntoSections st lines of
                Inl e \<Rightarrow> (Inl e, calls @ [c, Call_groupTextItemsIntoLines textItems,
                                        Call_groupLinesIntoSections lines])
              | Inr sections \<Rightarrow>
                  (extractResumeFromSections st sections,
                   calls @ [c, Call_groupTextItemsIntoLines textItems,
                          Call_groupLinesIntoSections lines,
                          Call_extractResumeFromSections sections]))))"
  by (simp add: and_then_def invoke_def returns_def split: sum.splits)

lemma parseResumeFromFile_run:
  "parseResumeFromFile w st file calls =
   (case readDocument w file of
      Inl e \<Rightarrow> (Inl e, calls @ [Call_readDocument file])
    | Inr textItems \<Rightarrow>
        (case groupTextItemsIntoLines st textItems of
           Inl e \<Rightarrow> (Inl e, calls @ [Call_readDocument file, Call_groupTextItemsIntoLines textItems])
         | Inr lines \<Rightarrow>
             (case groupLinesIntoSections st lines of
                Inl e \<Rightarrow> (Inl e, calls @ [Call_readDocument file, Call_groupTextItemsIntoLines textItems,
                                        Call_groupLinesIntoSections lines])
              | Inr sections \<Rightarrow>
                  (extractResumeFromSections st sections,
                   calls @ [Call_readDocument file, Call_groupTextItemsIntoLines textItems,
                          Call_groupLinesIntoSections lines,
                          Call_extractResumeFromSections sections]))))"
  unfolding parseResumeFromFile_def by (rule pipeline_tail)

lemma parseResumeFromPdf_run:
  "parseResumeFromPdf w st fileUrl calls =
   (case readPdf w fileUrl of
      Inl e \<Rightarrow> (Inl e, calls @ [Call_readPdf fileUrl])
    | Inr textItems \<Rightarrow>
        (case groupTextItemsIntoLines st textItems of
           Inl e \<Rightarrow> (Inl e, calls @ [Call_readPdf fileUrl, Call_groupTextItemsIntoLines textItems])
         | Inr lines \<Rightarrow>
             (case groupLinesIntoSections st lines of
                Inl e \<Rightarrow> (Inl e, calls @ [Call_readPdf fileUrl, Call_groupTextItemsIntoLines textItems,
                                        Call_groupLinesIntoSections lines])
              | Inr sections \<Rightarrow>
                  (extractResumeFromSections st sections,
                   calls @ [Call_readPdf fileUrl, Call_groupTextItemsIntoLines textItems,
                          Call_groupLinesIntoSections lines,
                          Call_extractResumeFromSections sections]))))"
  unfolding parseResumeFromPdf_def by (rule pipeline_tail)

lemma configured_env_key:
  "configured_env (ascii ''NEXT_PUBLIC_UNSTRUCTURED_API_KEY'') = Some (ascii ''secret'')"
  "configured_env (ascii ''NEXT_PUBLIC_UNSTRUCTURED_API_URL'') = None"
  by (simp_all add: configured_env_def ascii_def)

lemma ascii_secret_nonempty: "ascii ''secret'' \<noteq> []"
  by (simp add: ascii_def)

lemma parse_serving_world:
  "parseDocumentWithUnstructured (serving_world elements) file = Inr elements"
  by (simp add: parseDocumentWithUnstructured_def serving_world_def Let_def
      configured_env_key ascii_secret_nonempty)

lemma parse_failing_world_Error:
  "parseDocumentWithUnstructured (failing_world (Error n m)) file =
   Inl (new_Error (ascii ''Failed to parse document with Unstructured API: '' @ m))"
  by (simp add: parseDocumentWithUnstructured_def failing_world_def Let_def
      configured_env_key ascii_secret_nonempty)

lemma parse_failing_world_NonError:
  "parseDocumentWithUnstructured (failing_world (NonError v)) file = Inl (NonError v)"
  by (simp add: parseDocumentWithUnstructured_def failing_world_def Let_def
      configured_env_key ascii_secret_nonempty)

text \<open>
  Claim C10. The empty-space filter of \<open>readDocument\<close> removes nothing: every
  converted item has \<open>hasEOL = true\<close>, so \<open>isEmptySpace\<close> holds of none, and
  when the parse succeeds \<open>readDocument\<close> returns exactly the conversion of the
  parsed elements.
\<close>

theorem readDocument_filter_noop:
  "parseDocumentWithUnstructured w file = Inr elements \<Longrightarrow>
   readDocument w file = Inr (convertUnstructuredToTextItems elements) \<and>
   filter (\<lambda>textItem. \<not> isEmptySpace textItem) (convertUnstructuredToTextItems elements) =
     convertUnstructuredToTextItems elements \<and>
   (\<forall>textItem\<in>set (convertUnstructuredToTextItems elements). \<not> isEmptySpace textItem)"
  using convert_not_isEmptySpace [of _ elements]
  by (auto simp: readDocument_success filter_id_conv)

text \<open>A service that answers with three elements, one of them blank.\<close>

theorem readDocument_filter_noop_witness:
  "parseDocumentWithUnstructured (serving_world [sample_element, blank_element, bare_element])
     sample_file = Inr [sample_element, blank_element, bare_element] \<and>
   readDocument (serving_world [sample_element, blank_element, bare_element]) sample_file =
     Inr (convertUnstructuredToTextItems [sample_element, blank_element, bare_element]) \<and>
   length (convertUnstructuredToTextItems [sample_element, blank_element, bare_element]) = 2"
  using readDocument_filter_noop [OF parse_serving_world,
      of "[sample_element, blank_element, bare_element]" sample_file]
  by (simp add: parse_serving_world convertUnstructuredToTextItems_def has_text_samples)

section \<open>Properties of the numbers\<close>

lemma bit_length_0: "bit_length 0 = 0"
  by (subst bit_length.simps) simp

lemma bit_length_pos: "n \<noteq> 0 \<Longrightarrow> bit_length n = Suc (bit_length (n div 2))"
  by (subst bit_length.simps) simp

lemma bit_length_le: "n < 2 ^ k \<Longrightarrow> bit_length n \<le> k"
proof (induction k arbitrary: n)
  case 0
  then show ?case by (simp add: bit_length_0)
next
  case (Suc k)
  show ?case
  proof (cases "n = 0")
    case True
    then show ?thesis by (simp add: bit_length_0)
  next
    case False
    from Suc.prems have "n div 2 < 2 ^ k" by simp
    then have "bit_length (n div 2) \<le> k" by (rule Suc.IH)
    with False show ?thesis by (simp add: bit_length_pos)
  qed
qed

lemma bit_length_gt: "2 ^ k \<le> n \<Longrightarrow> k < bit_length n"
proof (induction k arbitrary: n)
  case 0
  then have "n \<noteq> 0" by auto
  then show ?case by (simp add: bit_length_pos)
next
  case (Suc k)
  then have "2 ^ k \<le> n div 2" by simp
  then have "k < bit_length (n div 2)" by (rule Suc.IH)
  moreover have "(0::nat) < 2 ^ Suc k" by simp
  with Suc.prems have "n \<noteq> 0" by linarith
  ultimately show ?case by (simp add: bit_length_pos)
qed

lemma bit_length_eq: "2 ^ k \<le> n \<Longrightarrow> n < 2 ^ Suc k \<Longrightarrow> bit_length n = Suc k"
  using bit_length_le [of n "Suc k"] bit_length_gt [of k n] by simp

lemma round_nearest_even_exact:
  assumes "n < 2 ^ (53 + j)" and "2 ^ j dvd n"
  shows "round_nearest_even n = n"
proof (cases "bit_length n - 53 = 0")
  case True
  then show ?thesis by (simp add: round_nearest_even_def)
next
  case False
  define e where "e = bit_length n - 53"
  from assms(1) have "bit_length n \<le> 53 + j" by (rule bit_length_le)
  then have "e \<le> j" by (simp add: e_def)
  then have "(2::nat) ^ e dvd 2 ^ j" by (simp add: le_imp_power_dvd)
  from this assms(2) have dvd: "2 ^ e dvd n" by (rule dvd_trans)
  then have "n mod 2 ^ e = 0" "n div 2 ^ e * 2 ^ e = n" by simp_all
  moreover from False have "0 < e" by (simp add: e_def)
  then have "(0::nat) < 2 ^ e div 2" by (cases e) simp_all
  ultimately show ?thesis
    using False by (simp add: round_nearest_even_def Let_def e_def [symmetric])
qed

lemma round_to_double_exact:
  assumes "\<bar>d\<bar> < 2 ^ (53 + j)" and "2 ^ j dvd d" and "\<bar>d\<bar> < 2 ^ 2098"
  shows "round_to_double d = Num d"
proof -
  have "nat \<bar>d\<bar> < 2 ^ (53 + j)"
    using assms(1) by (simp add: nat_less_iff)
  moreover have "2 ^ j dvd nat \<bar>d\<bar>"
    using assms(2) by (metis dvd_abs_iff int_dvd_int_iff nat_0_le of_nat_numeral of_nat_power abs_ge_zero)
  ultimately have "round_nearest_even (nat \<bar>d\<bar>) = nat \<bar>d\<bar>"
    by (rule round_nearest_even_exact)
  moreover have "\<not> (2::nat) ^ 2098 \<le> nat \<bar>d\<bar>"
    using assms(3) by (simp add: nat_less_iff not_le)
  ultimately show ?thesis
    by (simp add: round_to_double_def Let_def)
qed

lemma js_minus_double:
  assumes "\<bar>a - b\<bar> < 2 ^ 53"
  shows "js_minus (double a) (double b) = double (a - b)"
proof -
  have eq: "a * 2 ^ 1074 - b * 2 ^ 1074 = (a - b) * 2 ^ 1074"
    by (simp add: algebra_simps)
  have "\<bar>(a - b) * 2 ^ 1074\<bar> < 2 ^ 53 * 2 ^ 1074"
    using assms by (simp add: abs_mult)
  then have small: "\<bar>(a - b) * 2 ^ 1074\<bar> < 2 ^ (53 + 1074)"
    by (simp only: power_add)
  have "(2::int) ^ (53 + 1074) \<le> 2 ^ 2098"
    by (rule power_increasing) simp_all
  with small have "\<bar>(a - b) * 2 ^ 1074\<bar> < 2 ^ 2098" by linarith
  with small have "round_to_double ((a - b) * 2 ^ 1074) = Num ((a - b) * 2 ^ 1074)"
    by (intro round_to_double_exact [where j = 1074]) simp_all
  then show ?thesis
    by (simp add: double_def eq)
qed

lemma round_to_double_nonneg:
  "0 \<le> d \<Longrightarrow> round_to_double d = Infinity \<or> (\<exists>k\<ge>0. round_to_double d = Num k)"
  by (simp add: round_to_double_def Let_def)

lemma round_nearest_even_split:
  assumes q: "2 ^ 52 \<le> q" "q < 2 ^ 53" and r: "r < 2 ^ e" and e: "0 < e"
  shows "round_nearest_even (q * 2 ^ e + r) =
         (if 2 ^ e div 2 < r \<or> (r = 2 ^ e div 2 \<and> odd q) then (q + 1) * 2 ^ e else q * 2 ^ e)"
proof -
  let ?n = "q * 2 ^ e + r"
  have "(2::nat) ^ (52 + e) = 2 ^ 52 * 2 ^ e" by (simp add: power_add)
  also have "\<dots> \<le> q * 2 ^ e" using q(1) by simp
  finally have lo: "2 ^ (52 + e) \<le> ?n" by simp
  have "?n < q * 2 ^ e + 2 ^ e" using r by simp
  also have "\<dots> = (q + 1) * 2 ^ e" by simp
  also have "\<dots> \<le> 2 ^ 53 * 2 ^ e" using q(2) by (intro mult_right_mono) simp_all
  also have "\<dots> = 2 ^ Suc (52 + e)" by (simp add: power_add)
  finally have hi: "?n < 2 ^ Suc (52 + e)" .
  from lo hi have "bit_length ?n = Suc (52 + e)" by (rule bit_length_eq)
  then have ex: "bit_length ?n - 53 = e" by simp
  have "?n div 2 ^ e = q" "?n mod 2 ^ e = r" using r by simp_all
  with e show ?thesis
    by (simp add: round_nearest_even_def ex Let_def del: One_nat_def)
qed

text \<open>
  Two differences that are not exact: \<open>2^53 - (-1)\<close> rounds to \<open>2^53\<close>, and the
  largest finite number minus its negation overflows.
\<close>

lemma rounding_example:
  "js_minus (double (2 ^ 53)) (double (- 1)) = double (2 ^ 53)"
proof -
  have split: "nat \<bar>(2 ^ 53 * 2 ^ 1074 - - 1 * 2 ^ 1074 :: int)\<bar> = 2 ^ 52 * 2 ^ 1075 + 2 ^ 1074"
    by simp
  have "round_nearest_even (2 ^ 52 * 2 ^ 1075 + 2 ^ 1074) = 2 ^ 52 * 2 ^ 1075"
    by (subst round_nearest_even_split) simp_all
  then show ?thesis
    unfolding double_def js_minus.simps finite_value.simps round_to_double_def split Let_def
    by simp
qed

lemma overflow_example:
  "js_minus (Num ((2 ^ 53 - 1) * 2 ^ 2045)) (Num (- ((2 ^ 53 - 1) * 2 ^ 2045))) = Infinity"
proof -
  have split: "nat \<bar>((2 ^ 53 - 1) * 2 ^ 2045 - - ((2 ^ 53 - 1) * 2 ^ 2045) :: int)\<bar> =
               (2 ^ 53 - 1) * 2 ^ 2046 + 0"
    by simp
  have "round_nearest_even ((2 ^ 53 - 1) * 2 ^ 2046 + 0) = (2 ^ 53 - 1) * 2 ^ 2046"
    by (subst round_nearest_even_split) simp_all
  then show ?thesis
    unfolding js_minus.simps finite_value.simps round_to_double_def split Let_def
    by simp
qed

lemma js_lt_rank: "a \<noteq> NaN \<Longrightarrow> b \<noteq> NaN \<Longrightarrow> js_lt a b \<longleftrightarrow> rank a < rank b"
  by (cases a; cases b) simp_all

lemma rank_bounds: "a \<noteq> NaN \<Longrightarrow> (- 1, 0) \<le> rank a \<and> rank a \<le> (1, 0)"
  by (cases a) simp_all

lemma rank_Infinity: "rank a = (1, 0) \<longleftrightarrow> a = Infinity"
  by (cases a) simp_all

lemma rank_NegInfinity: "rank a = (- 1, 0) \<longleftrightarrow> a = NegInfinity"
  by (cases a) simp_all

lemma min_scan_NaN: "NaN \<in> set ns \<Longrightarrow> min_scan l ns = NaN"
  by (induction ns arbitrary: l) auto

lemma max_scan_NaN: "NaN \<in> set ns \<Longrightarrow> max_scan h ns = NaN"
  by (induction ns arbitrary: h) auto

lemma min_step:
  assumes "n \<noteq> NaN" and "l \<noteq> NaN"
  shows "(if n = NegZero \<and> l = Num 0 then NegZero else if js_lt n l then n else l) \<noteq> NaN"
    and "rank (if n = NegZero \<and> l = Num 0 then NegZero else if js_lt n l then n else l) =
         min (rank l) (rank n)"
  using assms by (auto simp: js_lt_rank min_def)

lemma max_step:
  assumes "n \<noteq> NaN" and "h \<noteq> NaN"
  shows "(if n = Num 0 \<and> h = NegZero then Num 0 else if js_lt h n then n else h) \<noteq> NaN"
    and "rank (if n = Num 0 \<and> h = NegZero then Num 0 else if js_lt h n then n else h) =
         max (rank h) (rank n)"
  using assms by (auto simp: js_lt_rank max_def)

lemma min_scan_rank:
  "NaN \<notin> set ns \<Longrightarrow> l \<noteq> NaN \<Longrightarrow>
   min_scan l ns \<noteq> NaN \<and> rank (min_scan l ns) = Min (insert (rank l) (rank ` set ns))"
proof (induction ns arbitrary: l)
  case Nil
  then show ?case by simp
next
  case (Cons n ns)
  let ?s = "if n = NegZero \<and> l = Num 0 then NegZero else if js_lt n l then n else l"
  from Cons.prems have n: "n \<noteq> NaN" and ns: "NaN \<notin> set ns" by auto
  note step = min_step [OF n Cons.prems(2)]
  from Cons.IH [OF ns step(1)]
  have ih: "min_scan ?s ns \<noteq> NaN"
    "rank (min_scan ?s ns) = Min (insert (rank ?s) (rank ` set ns))"
    by blast+
  from ih(2) have "rank (min_scan ?s ns) = Min (insert (min (rank l) (rank n)) (rank ` set ns))"
    unfolding step(2) .
  moreover note ih(1)
  moreover have "Min (insert (min (rank l) (rank n)) (rank ` set ns)) =
                 Min (insert (rank l) (rank ` set (n # ns)))"
    by (cases "set ns = {}") (simp_all add: min.assoc)
  ultimately show ?case using n by simp
qed

lemma max_scan_rank:
  "NaN \<notin> set ns \<Longrightarrow> h \<noteq> NaN \<Longrightarrow>
   max_scan h ns \<noteq> NaN \<and> rank (max_scan h ns) = Max (insert (rank h) (rank ` set ns))"
proof (induction ns arbitrary: h)
  case Nil
  then show ?case by simp
next
  case (Cons n ns)
  let ?s = "if n = Num 0 \<and> h = NegZero then Num 0 else if js_lt h n then n else h"
  from Cons.prems have n: "n \<noteq> NaN" and ns: "NaN \<notin> set ns" by auto
  note step = max_step [OF n Cons.prems(2)]
  from Cons.IH [OF ns step(1)]
  have ih: "max_scan ?s ns \<noteq> NaN"
    "rank (max_scan ?s ns) = Max (insert (rank ?s) (rank ` set ns))"
    by blast+
  from ih(2) have "rank (max_scan ?s ns) = Max (insert (max (rank h) (rank n)) (rank ` set ns))"
    unfolding step(2) .
  moreover note ih(1)
  moreover have "Max (insert (max (rank h) (rank n)) (rank ` set ns)) =
                 Max (insert (rank h) (rank ` set (n # ns)))"
    by (cases "set ns = {}") (simp_all add: max.assoc)
  ultimately show ?case using n by simp
qed

lemma js_minus_nonneg:
  assumes "a \<noteq> NaN" and "b \<noteq> NaN" and "rank b \<le> rank a"
  shows "js_ge (js_minus a b) (Num 0) \<longleftrightarrow> b \<noteq> Infinity \<and> a \<noteq> NegInfinity"
proof -
  have fin: "round_to_double d \<noteq> NaN" "\<not> js_lt (round_to_double d) (Num 0)"
    if "0 \<le> d" for d
    using round_to_double_nonneg [OF that] by auto
  show ?thesis
    using assms by (cases a; cases b) (simp_all add: fin js_ge_def)
qed

lemma Min_eq_top:
  fixes R :: "('a::linorder) set"
  assumes "finite R" and "R \<noteq> {}" and "\<forall>r\<in>R. r \<le> t"
  shows "Min R = t \<longleftrightarrow> (\<forall>r\<in>R. r = t)"
proof
  assume eq: "Min R = t"
  show "\<forall>r\<in>R. r = t"
  proof
    fix r assume r: "r \<in> R"
    with assms(1) have "Min R \<le> r" by simp
    moreover from r assms(3) have "r \<le> t" by blast
    ultimately show "r = t" using eq by simp
  qed
next
  assume "\<forall>r\<in>R. r = t"
  moreover from assms(1,2) have "Min R \<in> R" by (rule Min_in)
  ultimately show "Min R = t" by blast
qed

lemma Max_eq_bottom:
  fixes R :: "('a::linorder) set"
  assumes "finite R" and "R \<noteq> {}" and "\<forall>r\<in>R. t \<le> r"
  shows "Max R = t \<longleftrightarrow> (\<forall>r\<in>R. r = t)"
proof
  assume eq: "Max R = t"
  show "\<forall>r\<in>R. r = t"
  proof
    fix r assume r: "r \<in> R"
    with assms(1) have "r \<le> Max R" by simp
    moreover from r assms(3) have "t \<le> r" by blast
    ultimately show "r = t" using eq by simp
  qed
next
  assume "\<forall>r\<in>R. r = t"
  moreover from assms(1,2) have "Max R \<in> R" by (rule Max_in)
  ultimately show "Max R = t" by blast
qed

lemma extent_iff:
  assumes "vs \<noteq> []"
  shows "js_ge (js_minus (Math_max vs) (Math_min vs)) (Num 0) \<longleftrightarrow> has_extent vs"
proof (cases "NaN \<in> set (map ToNumber vs)")
  case True
  then have "Math_min vs = NaN" by (simp add: Math_min_def min_scan_NaN)
  moreover have "js_minus a NaN = NaN" for a by (cases a) simp_all
  moreover from True obtain v where "v \<in> set vs" "ToNumber v = NaN"
    by (metis imageE list.set_map)
  then have "\<not> list_all (\<lambda>v. ToNumber v \<noteq> NaN) vs"
    unfolding list_all_iff by blast
  ultimately show ?thesis by (simp add: has_extent_def js_ge_def)
next
  case False
  let ?ns = "map ToNumber vs"
  let ?R = "rank ` set ?ns"
  from assms have ne: "?R \<noteq> {}" by simp
  have bounds: "(- 1, 0) \<le> r \<and> r \<le> (1, 0)" if "r \<in> ?R" for r
    using that False rank_bounds by (metis (no_types, lifting) imageE)
  from min_scan_rank [OF False, of Infinity]
  have m: "Math_min vs \<noteq> NaN" "rank (Math_min vs) = Min (insert (1, 0) ?R)"
    by (simp_all add: Math_min_def)
  from max_scan_rank [OF False, of NegInfinity]
  have M: "Math_max vs \<noteq> NaN" "rank (Math_max vs) = Max (insert (- 1, 0) ?R)"
    by (simp_all add: Math_max_def)
  have minR: "Min (insert (1, 0) ?R) = Min ?R"
    using ne bounds by (simp add: min_absorb2)
  have maxR: "Max (insert (- 1, 0) ?R) = Max ?R"
    using ne bounds by (simp add: max_absorb2)
  have "Min ?R \<le> Max ?R"
    using ne by (meson List.finite_set Max_ge Min_le ex_in_conv finite_imageI order_trans)
  then have le: "rank (Math_min vs) \<le> rank (Math_max vs)"
    unfolding m(2) M(2) minR maxR .
  have "Math_min vs = Infinity \<longleftrightarrow> (\<forall>r\<in>?R. r = (1, 0))"
    unfolding rank_Infinity [symmetric] m(2) minR
    using ne bounds by (intro Min_eq_top) blast+
  also have "\<dots> \<longleftrightarrow> list_all (\<lambda>v. ToNumber v = Infinity) vs"
    by (simp add: list_all_iff rank_Infinity)
  finally have all_inf: "Math_min vs = Infinity \<longleftrightarrow> list_all (\<lambda>v. ToNumber v = Infinity) vs" .
  have "Math_max vs = NegInfinity \<longleftrightarrow> (\<forall>r\<in>?R. r = (- 1, 0))"
    unfolding rank_NegInfinity [symmetric] M(2) maxR
    using ne bounds by (intro Max_eq_bottom) blast+
  also have "\<dots> \<longleftrightarrow> list_all (\<lambda>v. ToNumber v = NegInfinity) vs"
    by (simp add: list_all_iff rank_NegInfinity)
  finally have all_neg: "Math_max vs = NegInfinity \<longleftrightarrow> list_all (\<lambda>v. ToNumber v = NegInfinity) vs" .
  from False have "list_all (\<lambda>v. ToNumber v \<noteq> NaN) vs"
    unfolding list_all_iff by (metis image_eqI list.set_map)
  then show ?thesis
    by (simp add: js_minus_nonneg [OF M(1) m(1) le] all_inf all_neg has_extent_def)
qed

section \<open>Positions and extents\<close>

lemma ToNumber_simps: "ToNumber (Some n) = n" "ToNumber None = NaN"
  by (simp_all add: ToNumber_def)

lemma double_simps:
  "double a \<noteq> NaN" "double a \<noteq> NegZero" "double a \<noteq> Infinity" "double a \<noteq> NegInfinity"
  "NaN \<noteq> double a" "NegZero \<noteq> double a" "Infinity \<noteq> double a" "NegInfinity \<noteq> double a"
  "double a = Num 0 \<longleftrightarrow> a = 0" "double a = double b \<longleftrightarrow> a = b"
  "js_lt (double a) (double b) \<longleftrightarrow> a < b"
  "js_lt (double a) Infinity" "\<not> js_lt (double a) NegInfinity"
  "\<not> js_lt Infinity (double a)" "js_lt NegInfinity (double a)"
  by (simp_all add: double_def)

lemma to_text_item_box:
  assumes "el_metadata element = Some md" and "coordinates md = Some c" and "points c \<noteq> []"
  shows "to_text_item element =
     \<lparr>item_text = el_text element,
      item_x = Math_min (point_xs c),
      item_y = js_minus (number_or (layout_height c) (double 792)) (Math_max (point_ys c)),
      item_width = js_minus (Math_max (point_xs c)) (Math_min (point_xs c)),
      item_height = js_minus (Math_max (point_ys c)) (Math_min (point_ys c)),
      item_fontName = ascii ''UnknownFont'', item_hasEOL = True\<rparr>"
  using assms by (simp add: to_text_item_def Let_def point_xs_def point_ys_def)

lemma to_text_item_default:
  assumes "coordinate_points element = None"
  shows "to_text_item element =
     \<lparr>item_text = el_text element, item_x = double 0, item_y = double 0,
      item_width = double 100, item_height = double 12,
      item_fontName = ascii ''UnknownFont'', item_hasEOL = True\<rparr>"
  using assms
  by (auto simp: to_text_item_def coordinate_points_def Let_def split: option.splits if_splits)

lemma coordinate_points_Some:
  "coordinate_points element = Some c \<longleftrightarrow>
   (\<exists>md. el_metadata element = Some md \<and> coordinates md = Some c \<and> points c \<noteq> [])"
  by (auto simp: coordinate_points_def split: option.splits if_splits)

lemma convert_nth:
  "i < length (filter has_text elements) \<Longrightarrow>
   convertUnstructuredToTextItems elements ! i = to_text_item (filter has_text elements ! i)"
  by (simp add: convertUnstructuredToTextItems_def)

text \<open>
  Claim C5, as amended. For the \<open>i\<close>-th element with text, when its metadata has
  coordinates with a non-empty points list, the \<open>i\<close>-th item has \<open>x\<close> the minimum
  of the points' x-values, \<open>width\<close> the maximum x-value minus the minimum,
  \<open>height\<close> the maximum y-value minus the minimum, and \<open>y\<close> the page height minus
  the maximum y-value. Minimum and maximum are \<open>Math.min\<close> and \<open>Math.max\<close> over
  the entries at index 0 (resp. 1) of all the points, NaN as soon as a point has no
  such entry; the differences are JavaScript's, rounded to binary64; and the page
  height is \<open>layout_height\<close> when that value is neither zero nor NaN, and 792
  otherwise.
\<close>

theorem convert_position:
  assumes "i < length (filter has_text elements)"
    and "el_metadata (filter has_text elements ! i) = Some md"
    and "coordinates md = Some c"
    and "points c \<noteq> []"
  shows "item_x (convertUnstructuredToTextItems elements ! i) = Math_min (point_xs c) \<and>
         item_width (convertUnstructuredToTextItems elements ! i) =
           js_minus (Math_max (point_xs c)) (Math_min (point_xs c)) \<and>
         item_height (convertUnstructuredToTextItems elements ! i) =
           js_minus (Math_max (point_ys c)) (Math_min (point_ys c)) \<and>
         item_y (convertUnstructuredToTextItems elements ! i) =
           js_minus (if layout_height c = NaN then double 792 else stated_pageHeight c)
             (Math_max (point_ys c))"
proof -
  have "number_or (layout_height c) (double 792) =
        (if layout_height c = NaN then double 792 else stated_pageHeight c)"
    by (simp add: number_or_def stated_pageHeight_def)
  then show ?thesis
    using assms by (simp add: convert_nth to_text_item_box)
qed

lemma sample_box:
  "Math_min (point_xs sample_coordinates) = double 72"
  "Math_max (point_xs sample_coordinates) = double 172"
  "Math_min (point_ys sample_coordinates) = double 100"
  "Math_max (point_ys sample_coordinates) = double 112"
  by (simp_all add: point_xs_def point_ys_def sample_coordinates_def index_def
      Math_min_def Math_max_def ToNumber_simps double_simps)

lemma sample_differences:
  "js_minus (double 172) (double 72) = double 100"
  "js_minus (double 112) (double 100) = double 12"
  "js_minus (double 792) (double 112) = double 680"
  "js_minus (double 100) (double 100) = double 0"
  by (simp_all add: js_minus_double)

text \<open>The sample element, second in its list and first with text: the box (72, 680, 100, 12).\<close>

theorem convert_position_witness:
  "item_x (convertUnstructuredToTextItems [blank_element, sample_element] ! 0) = double 72 \<and>
   item_width (convertUnstructuredToTextItems [blank_element, sample_element] ! 0) = double 100 \<and>
   item_height (convertUnstructuredToTextItems [blank_element, sample_element] ! 0) = double 12 \<and>
   item_y (convertUnstructuredToTextItems [blank_element, sample_element] ! 0) = double 680"
proof -
  have kept: "filter has_text [blank_element, sample_element] = [sample_element]"
    by (simp add: has_text_samples)
  have "0 < length (filter has_text [blank_element, sample_element])"
    unfolding kept by simp
  moreover have "el_metadata (filter has_text [blank_element, sample_element] ! 0) =
      Some \<lparr>filename = Some (ascii ''resume.pdf''), page_number = Some (double 1),
            coordinates = Some sample_coordinates\<rparr>"
    unfolding kept by (simp add: sample_element_def)
  moreover have "coordinates \<lparr>filename = Some (ascii ''resume.pdf''), page_number = Some (double 1),
            coordinates = Some sample_coordinates\<rparr> = Some sample_coordinates"
    by simp
  moreover have "points sample_coordinates \<noteq> []"
    by (simp add: sample_coordinates_def)
  moreover have "layout_height sample_coordinates = double 792"
    by (simp add: sample_coordinates_def)
  ultimately show ?thesis
    using convert_position [of 0 "[blank_element, sample_element]" _ sample_coordinates]
    by (simp add: sample_box sample_differences stated_pageHeight_def double_simps)
qed

lemma convert_single:
  "has_text element \<Longrightarrow> convertUnstructuredToTextItems [element] ! 0 = to_text_item element"
  by (simp add: convertUnstructuredToTextItems_def)

text \<open>
  As stated, the claim fails in two places. With the page height \<open>layout_height\<close>
  whenever that value is non-zero: for a layout height of NaN, which is not zero, the
  stated \<open>y\<close> is NaN, and the code falls back to 792 and gives 680. With the maximum
  and minimum of the points' y-values: for the points \<open>[[72, 100], [172]]\<close> the only
  y-value is 100 and the stated height is 0, and the code, reading the missing entry as
  undefined, gives NaN.
\<close>

theorem stated_position_counterexample:
  "item_y (convertUnstructuredToTextItems [nan_height_element] ! 0) = double 680 \<and>
   js_minus (stated_pageHeight (sample_coordinates\<lparr>layout_height := NaN\<rparr>))
     (Math_max (point_ys (sample_coordinates\<lparr>layout_height := NaN\<rparr>))) = NaN \<and>
   item_y (convertUnstructuredToTextItems [nan_height_element] ! 0) \<noteq>
     js_minus (stated_pageHeight (sample_coordinates\<lparr>layout_height := NaN\<rparr>))
       (Math_max (point_ys (sample_coordinates\<lparr>layout_height := NaN\<rparr>))) \<and>
   item_height (convertUnstructuredToTextItems [ragged_element] ! 0) = NaN \<and>
   js_minus
     (Math_max (present (point_ys
        (sample_coordinates\<lparr>points := [[double 72, double 100], [double 172]]\<rparr>))))
     (Math_min (present (point_ys
        (sample_coordinates\<lparr>points := [[double 72, double 100], [double 172]]\<rparr>)))) = double 0 \<and>
   item_height (convertUnstructuredToTextItems [ragged_element] ! 0) \<noteq>
     js_minus
       (Math_max (present (point_ys
          (sample_coordinates\<lparr>points := [[double 72, double 100], [double 172]]\<rparr>))))
       (Math_min (present (point_ys
          (sample_coordinates\<lparr>points := [[double 72, double 100], [double 172]]\<rparr>))))"
proof -
  let ?c = "sample_coordinates\<lparr>layout_height := NaN\<rparr>"
  let ?r = "sample_coordinates\<lparr>points := [[double 72, double 100], [double 172]]\<rparr>"
  have ys: "point_ys ?c = point_ys sample_coordinates"
    by (simp add: point_ys_def)
  have "to_text_item nan_height_element =
     \<lparr>item_text = el_text nan_height_element,
      item_x = Math_min (point_xs ?c),
      item_y = js_minus (number_or (layout_height ?c) (double 792)) (Math_max (point_ys ?c)),
      item_width = js_minus (Math_max (point_xs ?c)) (Math_min (point_xs ?c)),
      item_height = js_minus (Math_max (point_ys ?c)) (Math_min (point_ys ?c)),
      item_fontName = ascii ''UnknownFont'', item_hasEOL = True\<rparr>"
    by (rule to_text_item_box [where md = "\<lparr>filename = None, page_number = None,
          coordinates = Some ?c\<rparr>"])
       (simp_all add: nan_height_element_def sample_coordinates_def)
  then have y: "item_y (to_text_item nan_height_element) = double 680"
    by (simp add: ys sample_box number_or_def sample_differences)
  have stated_y: "js_minus (stated_pageHeight ?c) (Math_max (point_ys ?c)) = NaN"
    by (simp add: stated_pageHeight_def)
  have rys: "point_ys ?r = [Some (double 100), None]"
    by (simp add: point_ys_def index_def)
  have "to_text_item ragged_element =
     \<lparr>item_text = el_text ragged_element,
      item_x = Math_min (point_xs ?r),
      item_y = js_minus (number_or (layout_height ?r) (double 792)) (Math_max (point_ys ?r)),
      item_width = js_minus (Math_max (point_xs ?r)) (Math_min (point_xs ?r)),
      item_height = js_minus (Math_max (point_ys ?r)) (Math_min (point_ys ?r)),
      item_fontName = ascii ''UnknownFont'', item_hasEOL = True\<rparr>"
    by (rule to_text_item_box [where md = "\<lparr>filename = None, page_number = None,
          coordinates = Some ?r\<rparr>"])
       (simp_all add: ragged_element_def)
  then have h: "item_height (to_text_item ragged_element) = NaN"
    by (simp add: rys Math_max_def Math_min_def ToNumber_simps double_simps)
  have stated_h: "js_minus (Math_max (present (point_ys ?r))) (Math_min (present (point_ys ?r))) =
                  double 0"
    by (simp add: rys present_def Math_max_def Math_min_def ToNumber_simps double_simps
        sample_differences)
  show ?thesis
    unfolding convert_single [OF has_text_samples(4)] convert_single [OF has_text_samples(6)]
      y stated_y h stated_h
    by (simp add: double_simps)
qed

lemma double_0: "double 0 = Num 0"
  by (simp add: double_def)

lemma is_finite_ToNumber:
  "is_finite v \<Longrightarrow> ToNumber v \<noteq> NaN \<and> ToNumber v \<noteq> Infinity \<and> ToNumber v \<noteq> NegInfinity"
  by (auto simp: is_finite_def ToNumber_def split: option.splits number.splits)

lemma finite_has_extent:
  assumes "list_all is_finite vs" and "vs \<noteq> []"
  shows "has_extent vs"
proof -
  from assms(2) obtain v where v: "v \<in> set vs" by (cases vs) auto
  with assms(1) have "is_finite v" by (simp add: list_all_iff)
  with v have "\<not> list_all (\<lambda>v. ToNumber v = Infinity) vs"
    "\<not> list_all (\<lambda>v. ToNumber v = NegInfinity) vs"
    unfolding list_all_iff using is_finite_ToNumber by blast+
  moreover from assms(1) have "list_all (\<lambda>v. ToNumber v \<noteq> NaN) vs"
    unfolding list_all_iff using is_finite_ToNumber by blast
  ultimately show ?thesis by (simp add: has_extent_def)
qed

lemma finite_point_xs_ys:
  assumes "list_all finite_point (points c)"
  shows "list_all is_finite (point_xs c)" and "list_all is_finite (point_ys c)"
  using assms by (simp_all add: point_xs_def point_ys_def list_all_iff finite_point_def)

lemma to_text_item_extent:
  assumes "coordinate_points element = Some c"
  shows "js_ge (item_width (to_text_item element)) (double 0) \<longleftrightarrow> has_extent (point_xs c)"
    and "js_ge (item_height (to_text_item element)) (double 0) \<longleftrightarrow> has_extent (point_ys c)"
proof -
  from assms obtain md where box: "el_metadata element = Some md" "coordinates md = Some c"
    "points c \<noteq> []" unfolding coordinate_points_Some by blast
  have ne: "point_xs c \<noteq> []" "point_ys c \<noteq> []"
    using box(3) by (simp_all add: point_xs_def point_ys_def)
  show "js_ge (item_width (to_text_item element)) (double 0) \<longleftrightarrow> has_extent (point_xs c)"
    by (simp add: to_text_item_box [OF box] double_0 extent_iff [OF ne(1)])
  show "js_ge (item_height (to_text_item element)) (double 0) \<longleftrightarrow> has_extent (point_ys c)"
    by (simp add: to_text_item_box [OF box] double_0 extent_iff [OF ne(2)])
qed

lemma default_extent: "js_ge (double 100) (double 0)" "js_ge (double 12) (double 0)"
  by (simp_all add: js_ge_def double_simps)

text \<open>
  Claim C6, as amended. The item of an element without coordinate points has the
  defaults, width 100 and height 12, and so \<open>width >= 0\<close> and \<open>height >= 0\<close>. The
  item of an element with coordinate points has \<open>width >= 0\<close> exactly when every
  point has a number other than NaN at index 0 and these are neither all
  \<open>+Infinity\<close> nor all \<open>-Infinity\<close>, and \<open>height >= 0\<close> exactly when the same holds
  at index 1; both hold, in particular, when every point has a finite x and a finite y.
\<close>

theorem convert_extent:
  assumes "i < length (filter has_text elements)"
  shows "(coordinate_points (filter has_text elements ! i) = None \<longrightarrow>
            item_width (convertUnstructuredToTextItems elements ! i) = double 100 \<and>
            item_height (convertUnstructuredToTextItems elements ! i) = double 12 \<and>
            js_ge (item_width (convertUnstructuredToTextItems elements ! i)) (double 0) \<and>
            js_ge (item_height (convertUnstructuredToTextItems elements ! i)) (double 0)) \<and>
         (coordinate_points (filter has_text elements ! i) = Some c \<longrightarrow>
            (js_ge (item_width (convertUnstructuredToTextItems elements ! i)) (double 0) \<longleftrightarrow>
               has_extent (point_xs c)) \<and>
            (js_ge (item_height (convertUnstructuredToTextItems elements ! i)) (double 0) \<longleftrightarrow>
               has_extent (point_ys c)) \<and>
            (list_all finite_point (points c) \<longrightarrow>
               js_ge (item_width (convertUnstructuredToTextItems elements ! i)) (double 0) \<and>
               js_ge (item_height (convertUnstructuredToTextItems elements ! i)) (double 0)))"
proof -
  let ?e = "filter has_text elements ! i"
  have item: "convertUnstructuredToTextItems elements ! i = to_text_item ?e"
    using assms by (rule convert_nth)
  have none: "item_width (to_text_item ?e) = double 100 \<and>
              item_height (to_text_item ?e) = double 12 \<and>
              js_ge (item_width (to_text_item ?e)) (double 0) \<and>
              js_ge (item_height (to_text_item ?e)) (double 0)"
    if "coordinate_points ?e = None"
    by (simp add: to_text_item_default [OF that] default_extent)
  have some: "(js_ge (item_width (to_text_item ?e)) (double 0) \<longleftrightarrow> has_extent (point_xs c)) \<and>
              (js_ge (item_height (to_text_item ?e)) (double 0) \<longleftrightarrow> has_extent (point_ys c)) \<and>
              (list_all finite_point (points c) \<longrightarrow>
                 js_ge (item_width (to_text_item ?e)) (double 0) \<and>
                 js_ge (item_height (to_text_item ?e)) (double 0))"
    if c: "coordinate_points ?e = Some c"
  proof -
    from c have ne: "point_xs c \<noteq> []" "point_ys c \<noteq> []"
      unfolding coordinate_points_Some by (auto simp: point_xs_def point_ys_def)
    have "has_extent (point_xs c) \<and> has_extent (point_ys c)"
      if "list_all finite_point (points c)"
      using finite_has_extent [OF finite_point_xs_ys(1) [OF that] ne(1)]
        finite_has_extent [OF finite_point_xs_ys(2) [OF that] ne(2)] by simp
    then show ?thesis
      by (simp add: to_text_item_extent [OF c])
  qed
  show ?thesis
    unfolding item using none some by blast
qed

lemma sample_has_extent:
  "has_extent (point_xs sample_coordinates)" "has_extent (point_ys sample_coordinates)"
  by (simp_all add: has_extent_def point_xs_def point_ys_def sample_coordinates_def index_def
      ToNumber_simps double_simps)

lemma coordinate_points_samples:
  "coordinate_points sample_element = Some sample_coordinates"
  "coordinate_points bare_element = None"
  by (simp_all add: coordinate_points_def sample_element_def bare_element_def
      sample_coordinates_def)

text \<open>
  Three elements, the middle one blank and dropped: the item of the sample box, and the
  item of an element without metadata.
\<close>

theorem convert_extent_witness:
  "length (convertUnstructuredToTextItems [sample_element, blank_element, bare_element]) = 2 \<and>
   coordinate_points sample_element = Some sample_coordinates \<and>
   has_extent (point_xs sample_coordinates) \<and> has_extent (point_ys sample_coordinates) \<and>
   js_ge (item_width
     (convertUnstructuredToTextItems [sample_element, blank_element, bare_element] ! 0)) (double 0) \<and>
   js_ge (item_height
     (convertUnstructuredToTextItems [sample_element, blank_element, bare_element] ! 0)) (double 0) \<and>
   coordinate_points bare_element = None \<and>
   item_width
     (convertUnstructuredToTextItems [sample_element, blank_element, bare_element] ! 1) = double 100 \<and>
   item_height
     (convertUnstructuredToTextItems [sample_element, blank_element, bare_element] ! 1) = double 12"
proof -
  let ?els = "[sample_element, blank_element, bare_element]"
  have kept: "filter has_text ?els = [sample_element, bare_element]"
    by (simp add: has_text_samples)
  have len: "length (convertUnstructuredToTextItems ?els) = 2"
    unfolding convertUnstructuredToTextItems_def kept by simp
  have i0: "0 < length (filter has_text ?els)" and i1: "1 < length (filter has_text ?els)"
    unfolding kept by simp_all
  have e0: "filter has_text ?els ! 0 = sample_element"
    and e1: "filter has_text ?els ! 1 = bare_element"
    unfolding kept by simp_all
  from convert_extent [OF i0, of sample_coordinates] convert_extent [OF i1, of sample_coordinates]
  show ?thesis
    unfolding e0 e1 by (simp add: coordinate_points_samples sample_has_extent len)
qed

text \<open>
  As stated, for every produced item, the claim fails for an element whose only point
  is \<open>[5]\<close>: its y-value is undefined, the height is NaN, and \<open>NaN >= 0\<close> is false.
\<close>

theorem extent_counterexample:
  "item_height (convertUnstructuredToTextItems [short_point_element] ! 0) = NaN \<and>
   \<not> js_ge (item_height (convertUnstructuredToTextItems [short_point_element] ! 0)) (double 0)"
proof -
  let ?c = "sample_coordinates\<lparr>points := [[double 5]]\<rparr>"
  have "to_text_item short_point_element =
     \<lparr>item_text = el_text short_point_element,
      item_x = Math_min (point_xs ?c),
      item_y = js_minus (number_or (layout_height ?c) (double 792)) (Math_max (point_ys ?c)),
      item_width = js_minus (Math_max (point_xs ?c)) (Math_min (point_xs ?c)),
      item_height = js_minus (Math_max (point_ys ?c)) (Math_min (point_ys ?c)),
      item_fontName = ascii ''UnknownFont'', item_hasEOL = True\<rparr>"
    by (rule to_text_item_box [where md = "\<lparr>filename = None, page_number = None,
          coordinates = Some ?c\<rparr>"])
       (simp_all add: short_point_element_def)
  moreover have "point_ys ?c = [None]"
    by (simp add: point_ys_def index_def)
  ultimately have "item_height (to_text_item short_point_element) = NaN"
    by (simp add: Math_max_def Math_min_def ToNumber_simps)
  then show ?thesis
    unfolding convert_single [OF has_text_samples(5)] by (simp add: js_ge_def)
qed

section \<open>Failures of the reader\<close>

lemma readDocument_failure:
  "parseDocumentWithUnstructured w file = Inl e \<Longrightarrow>
   readDocument w file = Inl (rethrown ''Failed to read document: '' e)"
  by (simp add: readDocument_def rethrown_def split: thrown.splits)

lemma readPdf_failure:
  "fetch_file w fileUrl = Inl e \<Longrightarrow>
   readPdf w fileUrl = Inl (rethrown ''Failed to read PDF from URL: '' e)"
  by (simp add: readPdf_def rethrown_def split: thrown.splits)

lemma readPdf_fetched:
  "fetch_file w fileUrl = Inr file \<Longrightarrow> readPdf w fileUrl = readDocument w file"
  by (simp add: readPdf_def)

lemma rethrown_Error_changed:
  "prefix \<noteq> [] \<Longrightarrow> rethrown prefix (Error n m) \<noteq> Error n m"
proof
  assume ne: "prefix \<noteq> []" and eq: "rethrown prefix (Error n m) = Error n m"
  from eq have "ascii prefix @ m = m"
    by (simp add: rethrown_def new_Error_def)
  then have "length (ascii prefix @ m) = length m" by simp
  with ne show False by (simp add: ascii_def)
qed

text \<open>
  Claim C1, as amended. When the reader fails, the failure passes through a \<open>catch\<close>
  that rethrows it: \<open>readDocument\<close> delivers what its \<open>catch\<close> makes of the error
  \<open>parseDocumentWithUnstructured\<close> delivered, and \<open>readPdf\<close> what its \<open>catch\<close>
  makes of the error thrown by the fetch or the blob read, while a failure of the
  \<open>readDocument\<close> call inside \<open>readPdf\<close> is delivered as that call delivered it.
  The \<open>catch\<close> replaces an \<open>Error\<close> by a new \<open>Error\<close> whose message is the old
  message behind \<open>"Failed to read document: "\<close> (resp.
  \<open>"Failed to read PDF from URL: "\<close>), which is never the same error; only a thrown
  value that is not an \<open>Error\<close> is delivered unchanged.
\<close>

theorem reader_failure_rethrown:
  "(parseDocumentWithUnstructured w file = Inl e \<longrightarrow>
      readDocument w file = Inl (rethrown ''Failed to read document: '' e)) \<and>
   (fetch_file w fileUrl = Inl e \<longrightarrow>
      readPdf w fileUrl = Inl (rethrown ''Failed to read PDF from URL: '' e)) \<and>
   (fetch_file w fileUrl = Inr fetched \<longrightarrow> readPdf w fileUrl = readDocument w fetched) \<and>
   rethrown ''Failed to read document: '' (NonError v) = NonError v \<and>
   rethrown ''Failed to read PDF from URL: '' (NonError v) = NonError v \<and>
   rethrown ''Failed to read document: '' (Error n m) =
     new_Error (ascii ''Failed to read document: '' @ m) \<and>
   rethrown ''Failed to read PDF from URL: '' (Error n m) =
     new_Error (ascii ''Failed to read PDF from URL: '' @ m) \<and>
   rethrown ''Failed to read document: '' (Error n m) \<noteq> Error n m \<and>
   rethrown ''Failed to read PDF from URL: '' (Error n m) \<noteq> Error n m"
  using rethrown_Error_changed [of "''Failed to read document: ''" n m]
    rethrown_Error_changed [of "''Failed to read PDF from URL: ''" n m]
  by (simp add: readDocument_failure readPdf_failure readPdf_fetched)
     (simp add: rethrown_def)

lemma fetch_file_failing_world: "fetch_file (failing_world e) fileUrl = Inl e"
  by (simp add: fetch_file_def failing_world_def)

lemma fetch_file_serving_world:
  "fetch_file (serving_world elements) (ascii ''https://example.com/cv/resume.pdf'') =
   Inr sample_file"
  by (simp add: fetch_file_def serving_world_def sample_file_def Let_def string_or_def
      pop_def ascii_def)

text \<open>
  A fetch that rejects with a string, a fetch that rejects with a \<open>TypeError\<close> (seen
  from \<open>readDocument\<close> and from \<open>readPdf\<close>), and a fetch that succeeds.
\<close>

theorem reader_failure_rethrown_witness:
  "parseDocumentWithUnstructured (failing_world (NonError (ascii ''offline''))) sample_file =
     Inl (NonError (ascii ''offline'')) \<and>
   readDocument (failing_world (NonError (ascii ''offline''))) sample_file =
     Inl (NonError (ascii ''offline'')) \<and>
   parseDocumentWithUnstructured (failing_world fetch_failed) sample_file =
     Inl (new_Error (ascii ''Failed to parse document with Unstructured API: Failed to fetch'')) \<and>
   readDocument (failing_world fetch_failed) sample_file =
     Inl (new_Error (ascii (''Failed to read document: '' @
            ''Failed to parse document with Unstructured API: Failed to fetch''))) \<and>
   fetch_file (failing_world fetch_failed) (ascii ''https://example.com/cv/resume.pdf'') =
     Inl fetch_failed \<and>
   readPdf (failing_world fetch_failed) (ascii ''https://example.com/cv/resume.pdf'') =
     Inl (new_Error (ascii ''Failed to read PDF from URL: Failed to fetch'')) \<and>
   fetch_file (serving_world []) (ascii ''https://example.com/cv/resume.pdf'') = Inr sample_file \<and>
   readPdf (serving_world []) (ascii ''https://example.com/cv/resume.pdf'') =
     readDocument (serving_world []) sample_file"
  using reader_failure_rethrown [where w = "failing_world (NonError (ascii ''offline''))"
      and ?file = sample_file and e = "NonError (ascii ''offline'')"
      and v = "ascii ''offline''"]
    reader_failure_rethrown [where w = "failing_world fetch_failed" and ?file = sample_file
      and e = "new_Error
        (ascii ''Failed to parse document with Unstructured API: Failed to fetch'')"]
    reader_failure_rethrown [where w = "failing_world fetch_failed" and e = fetch_failed
      and fileUrl = "ascii ''https://example.com/cv/resume.pdf''"
      and n = "ascii ''TypeError''" and m = "ascii ''Failed to fetch''"]
    reader_failure_rethrown [where w = "serving_world []"
      and fileUrl = "ascii ''https://example.com/cv/resume.pdf''" and fetched = sample_file]
  by (simp add: parse_failing_world_NonError parse_failing_world_Error
      fetch_file_failing_world fetch_file_serving_world fetch_failed_def)
     (simp add: rethrown_def new_Error_def ascii_def)

text \<open>
  As stated, with the very same error delivered, the claim fails whenever the error is
  an \<open>Error\<close>. Here the fetch rejects with \<open>TypeError: Failed to fetch\<close>:
  \<open>parseDocumentWithUnstructured\<close> delivers a new \<open>Error\<close> with a prefixed
  message, \<open>readDocument\<close> prefixes that once more, and \<open>readPdf\<close> prefixes the
  error of its own fetch.
\<close>

theorem reader_error_counterexample:
  "fetch (failing_world fetch_failed)
     \<lparr>req_url = ascii ''https://api.unstructured.io/general/v0/general'',
      req_method = ascii ''POST'',
      req_headers = [(ascii ''unstructured-api-key'', ascii ''secret'')],
      req_body = Some [(ascii ''files'', FormFile sample_file),
                       (ascii ''strategy'', FormString (ascii ''hi_res'')),
                       (ascii ''coordinates'', FormString (ascii ''true''))]\<rparr> =
     Inl (Error (ascii ''TypeError'') (ascii ''Failed to fetch'')) \<and>
   parseDocumentWithUnstructured (failing_world fetch_failed) sample_file =
     Inl (Error (ascii ''Error'')
            (ascii ''Failed to parse document with Unstructured API: Failed to fetch'')) \<and>
   readDocument (failing_world fetch_failed) sample_file =
     Inl (Error (ascii ''Error'')
            (ascii (''Failed to read document: '' @
                    ''Failed to parse document with Unstructured API: Failed to fetch''))) \<and>
   readDocument (failing_world fetch_failed) sample_file \<noteq>
     Inl (Error (ascii ''TypeError'') (ascii ''Failed to fetch'')) \<and>
   readDocument (failing_world fetch_failed) sample_file \<noteq>
     Inl (Error (ascii ''Error'')
            (ascii ''Failed to parse document with Unstructured API: Failed to fetch'')) \<and>
   readPdf (failing_world fetch_failed) (ascii ''https://example.com/cv/resume.pdf'') =
     Inl (Error (ascii ''Error'') (ascii ''Failed to read PDF from URL: Failed to fetch'')) \<and>
   readPdf (failing_world fetch_failed) (ascii ''https://example.com/cv/resume.pdf'') \<noteq>
     Inl (Error (ascii ''TypeError'') (ascii ''Failed to fetch''))"
proof -
  have parse: "parseDocumentWithUnstructured (failing_world fetch_failed) sample_file =
     Inl (Error (ascii ''Error'')
            (ascii ''Failed to parse document with Unstructured API: Failed to fetch''))"
    by (simp add: fetch_failed_def parse_failing_world_Error new_Error_def ascii_def)
  have rd: "readDocument (failing_world fetch_failed) sample_file =
     Inl (Error (ascii ''Error'')
            (ascii (''Failed to read document: '' @
                    ''Failed to parse document with Unstructured API: Failed to fetch'')))"
    by (simp add: readDocument_def parse new_Error_def ascii_def)
  have pdf: "readPdf (failing_world fetch_failed) (ascii ''https://example.com/cv/resume.pdf'') =
     Inl (Error (ascii ''Error'') (ascii ''Failed to read PDF from URL: Failed to fetch''))"
    by (simp add: readPdf_def fetch_file_failing_world fetch_failed_def new_Error_def ascii_def)
  have f: "fetch (failing_world fetch_failed)
     \<lparr>req_url = ascii ''https://api.unstructured.io/general/v0/general'',
      req_method = ascii ''POST'',
      req_headers = [(ascii ''unstructured-api-key'', ascii ''secret'')],
      req_body = Some [(ascii ''files'', FormFile sample_file),
                       (ascii ''strategy'', FormString (ascii ''hi_res'')),
                       (ascii ''coordinates'', FormString (ascii ''true''))]\<rparr> =
     Inl (Error (ascii ''TypeError'') (ascii ''Failed to fetch''))"
    by (simp add: failing_world_def fetch_failed_def)
  show ?thesis
    unfolding parse rd pdf f by (simp add: ascii_def)
qed

text \<open>
  Claim C2. For every input, the result of \<open>parseResumeFromFile\<close> is the composition
  of the four stages, each consuming the output of the one before: \<open>readDocument\<close>,
  then \<open>groupTextItemsIntoLines\<close>, then \<open>groupLinesIntoSections\<close>, then
  \<open>extractResumeFromSections\<close>; and when the stages before the last return, the run
  makes exactly these four calls, once each, in this order, each on the value the
  previous call returned. \<open>parseResumeFromPdf\<close> does the same with \<open>readPdf\<close> first.
\<close>

theorem pipeline_is_composition:
  "fst (parseResumeFromFile w st file calls) =
     bind_result (bind_result (bind_result (readDocument w file)
       (groupTextItemsIntoLines st)) (groupLinesIntoSections st)) (extractResumeFromSections st) \<and>
   fst (parseResumeFromPdf w st fileUrl calls) =
     bind_result (bind_result (bind_result (readPdf w fileUrl)
       (groupTextItemsIntoLines st)) (groupLinesIntoSections st)) (extractResumeFromSections st) \<and>
   (groupTextItemsIntoLines st textItems = Inr lines \<and>
    groupLinesIntoSections st lines = Inr sections \<longrightarrow>
      (readDocument w file = Inr textItems \<longrightarrow>
         snd (parseResumeFromFile w st file calls) =
           calls @ [Call_readDocument file, Call_groupTextItemsIntoLines textItems,
                    Call_groupLinesIntoSections lines,
                    Call_extractResumeFromSections sections]) \<and>
      (readPdf w fileUrl = Inr textItems \<longrightarrow>
         snd (parseResumeFromPdf w st fileUrl calls) =
           calls @ [Call_readPdf fileUrl, Call_groupTextItemsIntoLines textItems,
                    Call_groupLinesIntoSections lines,
                    Call_extractResumeFromSections sections]))"
  by (simp add: parseResumeFromFile_run parseResumeFromPdf_run bind_result_def
      split: sum.splits)

text \<open>Both pipelines on a service that answers with two elements, with the stand-in stages.\<close>

theorem pipeline_is_composition_witness:
  "readDocument (serving_world [sample_element, bare_element]) sample_file =
     Inr (convertUnstructuredToTextItems [sample_element, bare_element]) \<and>
   snd (parseResumeFromFile (serving_world [sample_element, bare_element])
          sample_stages sample_file []) =
     [Call_readDocument sample_file,
      Call_groupTextItemsIntoLines (convertUnstructuredToTextItems [sample_element, bare_element]),
      Call_groupLinesIntoSections [ascii ''John Doe'', ascii ''john@x.com''],
      Call_extractResumeFromSections [[ascii ''John Doe'', ascii ''john@x.com'']]] \<and>
   fst (parseResumeFromFile (serving_world [sample_element, bare_element])
          sample_stages sample_file []) = Inr 2 \<and>
   snd (parseResumeFromPdf (serving_world [sample_element, bare_element])
          sample_stages (ascii ''https://example.com/cv/resume.pdf'') []) =
     [Call_readPdf (ascii ''https://example.com/cv/resume.pdf''),
      Call_groupTextItemsIntoLines (convertUnstructuredToTextItems [sample_element, bare_element]),
      Call_groupLinesIntoSections [ascii ''John Doe'', ascii ''john@x.com''],
      Call_extractResumeFromSections [[ascii ''John Doe'', ascii ''john@x.com'']]] \<and>
   fst (parseResumeFromPdf (serving_world [sample_element, bare_element])
          sample_stages (ascii ''https://example.com/cv/resume.pdf'') []) = Inr 2"
proof -
  let ?w = "serving_world [sample_element, bare_element]"
  let ?items = "convertUnstructuredToTextItems [sample_element, bare_element]"
  have rd: "readDocument ?w sample_file = Inr ?items"
    by (rule readDocument_success) (rule parse_serving_world)
  have pdf: "readPdf ?w (ascii ''https://example.com/cv/resume.pdf'') = Inr ?items"
    by (simp add: readPdf_fetched [OF fetch_file_serving_world] rd)
  have kept: "filter has_text [sample_element, bare_element] = [sample_element, bare_element]"
    by (simp add: has_text_samples)
  have texts: "map item_text ?items = [ascii ''John Doe'', ascii ''john@x.com'']"
    unfolding convertUnstructuredToTextItems_def kept
    by (simp add: to_text_item_text sample_element_def bare_element_def)
  have lines: "groupTextItemsIntoLines sample_stages ?items =
                 Inr [ascii ''John Doe'', ascii ''john@x.com'']"
    by (simp add: sample_stages_def texts)
  have sections: "groupLinesIntoSections sample_stages [ascii ''John Doe'', ascii ''john@x.com''] =
                 Inr [[ascii ''John Doe'', ascii ''john@x.com'']]"
    by (simp add: sample_stages_def)
  have resume: "extractResumeFromSections sample_stages [[ascii ''John Doe'', ascii ''john@x.com'']] =
                 Inr 2"
    by (simp add: sample_stages_def)
  show ?thesis
    using pipeline_is_composition [where w = ?w and st = sample_stages and ?file = sample_file
        and fileUrl = "ascii ''https://example.com/cv/resume.pdf''" and calls = "[]"
        and textItems = ?items and lines = "[ascii ''John Doe'', ascii ''john@x.com'']"
        and sections = "[[ascii ''John Doe'', ascii ''john@x.com'']]"]
    by (simp add: rd pdf lines sections resume bind_result_def)
qed

text \<open>
  Claim C8. If the reading step fails, \<open>parseResumeFromFile\<close> (resp.
  \<open>parseResumeFromPdf\<close>) returns that failure, and the only call of the run is the call
  of \<open>readDocument\<close> (resp. \<open>readPdf\<close>): none of the three later stages is invoked.
\<close>

theorem reader_failure_skips_stages:
  "(readDocument w file = Inl e \<longrightarrow>
      parseResumeFromFile w st file calls = (Inl e, calls @ [Call_readDocument file])) \<and>
   (readPdf w fileUrl = Inl e \<longrightarrow>
      parseResumeFromPdf w st fileUrl calls = (Inl e, calls @ [Call_readPdf fileUrl]))"
  by (simp add: parseResumeFromFile_run parseResumeFromPdf_run)

lemma readDocument_failing_world:
  "readDocument (failing_world fetch_failed) sample_file =
   Inl (new_Error (ascii ''Failed to read document: '' @
          ascii ''Failed to parse document with Unstructured API: '' @ ascii ''Failed to fetch''))"
  by (simp add: readDocument_def fetch_failed_def parse_failing_world_Error new_Error_def)

lemma readPdf_failing_world:
  "readPdf (failing_world fetch_failed) fileUrl =
   Inl (new_Error (ascii ''Failed to read PDF from URL: '' @ ascii ''Failed to fetch''))"
  by (simp add: readPdf_def fetch_file_failing_world fetch_failed_def)

text \<open>Both pipelines without network: one call each, and the reader's error as the result.\<close>

theorem reader_failure_skips_stages_witness:
  "readDocument (failing_world fetch_failed) sample_file =
     Inl (new_Error (ascii ''Failed to read document: '' @
            ascii ''Failed to parse document with Unstructured API: '' @ ascii ''Failed to fetch'')) \<and>
   snd (parseResumeFromFile (failing_world fetch_failed) sample_stages sample_file []) =
     [Call_readDocument sample_file] \<and>
   fst (parseResumeFromFile (failing_world fetch_failed) sample_stages sample_file []) =
     Inl (new_Error (ascii ''Failed to read document: '' @
            ascii ''Failed to parse document with Unstructured API: '' @ ascii ''Failed to fetch'')) \<and>
   parseResumeFromPdf (failing_world fetch_failed) sample_stages (ascii ''a.pdf'') [] =
     (Inl (new_Error (ascii ''Failed to read PDF from URL: '' @ ascii ''Failed to fetch'')),
      [Call_readPdf (ascii ''a.pdf'')])"
  using reader_failure_skips_stages [where w = "failing_world fetch_failed"
      and ?file = sample_file and st = sample_stages and calls = "[]"
      and e = "new_Error (ascii ''Failed to read document: '' @
            ascii ''Failed to parse document with Unstructured API: '' @ ascii ''Failed to fetch'')"]
    reader_failure_skips_stages [where w = "failing_world fetch_failed"
      and fileUrl = "ascii ''a.pdf''" and st = sample_stages and calls = "[]"
      and e = "new_Error (ascii ''Failed to read PDF from URL: '' @ ascii ''Failed to fetch'')"]
  by (simp add: readDocument_failing_world readPdf_failing_world)

section \<open>The conversion on the heap\<close>

lemma index_append_Some: "index h a = Some x \<Longrightarrow> index (h @ t) a = Some x"
  by (simp add: index_def nth_append split: if_splits)

lemma index_length_append: "index (h @ [x]) (length h) = Some x"
  by (simp add: index_def)

lemma fields_of_append: "fields_of h v = Some props \<Longrightarrow> fields_of (h @ t) v = Some props"
  by (auto simp: fields_of_def index_append_Some split: js_value.splits option.splits js_object.splits)

lemma values_of_append: "values_of h v = Some vs \<Longrightarrow> values_of (h @ t) v = Some vs"
  by (auto simp: values_of_def index_append_Some split: js_value.splits option.splits js_object.splits)

lemma fields_of_allocate: "fields_of (h @ [JsObject props]) (VReference (length h)) = Some props"
  by (simp add: fields_of_def index_length_append)

lemma values_of_allocate: "values_of (h @ [JsArray vs]) (VReference (length h)) = Some vs"
  by (simp add: values_of_def index_length_append)

lemma property_fields: "fields_of h v = Some props \<Longrightarrow> property h v name = Some (lookup props name)"
  by (auto simp: fields_of_def property_def split: js_value.splits option.splits js_object.splits)

lemma array_length_values: "values_of h v = Some vs \<Longrightarrow> array_length h v = Some (length vs)"
  by (simp add: array_length_def)

lemma element_at_values:
  "values_of h v = Some vs \<Longrightarrow>
   element_at h v k = Some (case index vs k of None \<Rightarrow> VUndefined | Some x \<Rightarrow> x)"
  by (simp add: element_at_def)

lemma element_at_nth:
  "values_of h v = Some vs \<Longrightarrow> k < length vs \<Longrightarrow> element_at h v k = Some (vs ! k)"
  by (simp add: element_at_def index_def)

lemma those_map_iff:
  "those (map f vs) = Some xs \<longleftrightarrow> list_all2 (\<lambda>v x. f v = Some x) vs xs"
proof (induction vs arbitrary: xs)
  case Nil
  then show ?case by auto
next
  case (Cons v vs)
  show ?case
  proof (cases xs)
    case Nil
    then show ?thesis by (cases "f v"; cases "those (map f vs)") simp_all
  next
    case (Cons y ys)
    have "those (map f (v # vs)) = Some (y # ys) \<longleftrightarrow>
          f v = Some y \<and> those (map f vs) = Some ys"
      by (cases "f v"; cases "those (map f vs)") auto
    with Cons show ?thesis by (simp add: Cons.IH)
  qed
qed

lemma read_array_iff:
  "read_array h read v = Some xs \<longleftrightarrow>
   (\<exists>vs. values_of h v = Some vs \<and> list_all2 (\<lambda>v x. read v = Some x) vs xs)"
  by (cases "values_of h v") (simp_all add: read_array_def those_map_iff)

lemma read_array_append:
  assumes "read_array h read v = Some xs"
    and "\<And>u x. read u = Some x \<Longrightarrow> read' u = Some x"
  shows "read_array (h @ t) read' v = Some xs"
proof -
  from assms(1) obtain vs where vs: "values_of h v = Some vs"
    and all: "list_all2 (\<lambda>v x. read v = Some x) vs xs"
    unfolding read_array_iff by blast
  from all have "list_all2 (\<lambda>v x. read' v = Some x) vs xs"
    by (rule list_all2_mono) (rule assms(2))
  with values_of_append [OF vs] show ?thesis
    unfolding read_array_iff by blast
qed

lemma read_optional_mono:
  assumes "read_optional read v = Some x"
    and "\<And>y. read v = Some y \<Longrightarrow> read' v = Some y"
  shows "read_optional read' v = Some x"
  using assms by (auto simp: read_optional_def split: if_splits)

lemma read_coordinates_iff:
  "read_coordinates h v = Some c \<longleftrightarrow>
   (\<exists>props. fields_of h v = Some props \<and>
      read_array h (read_array h as_number) (lookup props ''points'') = Some (points c) \<and>
      read_string (lookup props ''system'') = Some (system c) \<and>
      as_number (lookup props ''layout_width'') = Some (layout_width c) \<and>
      as_number (lookup props ''layout_height'') = Some (layout_height c))"
  by (cases c) (auto simp: read_coordinates_def split: Option.bind_splits)

lemma read_metadata_iff:
  "read_metadata h v = Some md \<longleftrightarrow>
   (\<exists>props. fields_of h v = Some props \<and>
      read_optional read_string (lookup props ''filename'') = Some (filename md) \<and>
      read_optional as_number (lookup props ''page_number'') = Some (page_number md) \<and>
      read_optional (read_coordinates h) (lookup props ''coordinates'') = Some (coordinates md))"
  by (cases md) (auto simp: read_metadata_def split: Option.bind_splits)

lemma read_element_iff:
  "read_element h v = Some e \<longleftrightarrow>
   (\<exists>props. fields_of h v = Some props \<and>
      read_string (lookup props ''type'') = Some (el_type e) \<and>
      read_string (lookup props ''text'') = Some (el_text e) \<and>
      read_optional (read_metadata h) (lookup props ''metadata'') = Some (el_metadata e))"
  by (cases e) (auto simp: read_element_def split: Option.bind_splits)

lemma read_text_item_iff:
  "read_text_item h v = Some item \<longleftrightarrow>
   (\<exists>props. fields_of h v = Some props \<and>
      read_string (lookup props ''text'') = Some (item_text item) \<and>
      as_number (lookup props ''x'') = Some (item_x item) \<and>
      as_number (lookup props ''y'') = Some (item_y item) \<and>
      as_number (lookup props ''width'') = Some (item_width item) \<and>
      as_number (lookup props ''height'') = Some (item_height item) \<and>
      read_string (lookup props ''fontName'') = Some (item_fontName item) \<and>
      read_boolean (lookup props ''hasEOL'') = Some (item_hasEOL item))"
  by (cases item) (auto simp: read_text_item_def split: Option.bind_splits)

lemma read_points_append:
  assumes "read_array h (read_array h as_number) v = Some ps"
  shows "read_array (h @ t) (read_array (h @ t) as_number) v = Some ps"
  using assms by (rule read_array_append) (rule read_array_append, assumption+)

lemma read_coordinates_append:
  assumes "read_coordinates h v = Some c"
  shows "read_coordinates (h @ t) v = Some c"
  using assms unfolding read_coordinates_iff
  by (blast intro: fields_of_append read_points_append)

lemma read_metadata_append:
  assumes "read_metadata h v = Some md"
  shows "read_metadata (h @ t) v = Some md"
  using assms unfolding read_metadata_iff
  by (blast intro: fields_of_append read_optional_mono read_coordinates_append)

lemma read_element_append:
  assumes "read_element h v = Some e"
  shows "read_element (h @ t) v = Some e"
  using assms unfolding read_element_iff
  by (blast intro: fields_of_append read_optional_mono read_metadata_append)

lemma read_text_item_append:
  assumes "read_text_item h v = Some item"
  shows "read_text_item (h @ t) v = Some item"
  using assms unfolding read_text_item_iff
  by (blast intro: fields_of_append)

lemma has_text_callback_read:
  assumes "read_element h v = Some e"
  shows "\<exists>r. has_text_callback v h = Some (r, h) \<and> truthy r = has_text e"
proof -
  from assms obtain props where props: "fields_of h v = Some props"
    and tx: "read_string (lookup props ''text'') = Some (el_text e)"
    unfolding read_element_iff by blast
  from tx have "lookup props ''text'' = VString (el_text e)"
    by (simp add: read_string_def split: js_value.splits)
  then show ?thesis
    by (simp add: has_text_callback_def property_fields [OF props] has_text_def)
qed

lemma entry_callback_read:
  assumes "read_array h as_number u = Some p"
  shows "\<exists>w. entry_callback k u h = Some (w, h) \<and> as_argument w = Some (index p k)"
proof -
  from assms obtain vs where vs: "values_of h u = Some vs"
    and all: "list_all2 (\<lambda>v x. as_number v = Some x) vs p"
    unfolding read_array_iff by blast
  from all have len: "length vs = length p" by (rule list_all2_lengthD)
  have "as_argument (case index vs k of None \<Rightarrow> VUndefined | Some x \<Rightarrow> x) = Some (index p k)"
  proof (cases "k < length vs")
    case True
    with all have "as_number (vs ! k) = Some (p ! k)" by (simp add: list_all2_conv_all_nth)
    with True len show ?thesis
      by (simp add: index_def as_argument_def as_number_def split: js_value.splits)
  next
    case False
    with len show ?thesis by (simp add: index_def as_argument_def)
  qed
  then show ?thesis
    by (simp add: entry_callback_def element_at_values [OF vs])
qed

lemma map_from_entries:
  assumes "values_of h arr = Some pvs"
    and "list_all2 (\<lambda>u p. read_array h as_number u = Some p) pvs pts"
    and "i + n = length pvs"
  shows "\<exists>ws. map_from (entry_callback k) arr i n h = Some (ws, h) \<and>
              list_all2 (\<lambda>w p. as_argument w = Some (index p k)) ws (drop i pts)"
  using assms(3)
proof (induction n arbitrary: i)
  case 0
  with assms(2) have "drop i pts = []" by (simp add: list_all2_lengthD [symmetric])
  then show ?case by simp
next
  case (Suc n)
  from assms(2) have len: "length pvs = length pts" by (rule list_all2_lengthD)
  from Suc.prems have i: "i < length pvs" by simp
  with assms(2) have "read_array h as_number (pvs ! i) = Some (pts ! i)"
    by (simp add: list_all2_conv_all_nth)
  from entry_callback_read [OF this, of k] obtain w
    where w: "entry_callback k (pvs ! i) h = Some (w, h)" "as_argument w = Some (index (pts ! i) k)"
    by blast
  from Suc.prems have "Suc i + n = length pvs" by simp
  from Suc.IH [OF this] obtain ws
    where ws: "map_from (entry_callback k) arr (Suc i) n h = Some (ws, h)"
      "list_all2 (\<lambda>w p. as_argument w = Some (index p k)) ws (drop (Suc i) pts)"
    by blast
  from i len have "drop i pts = pts ! i # drop (Suc i) pts"
    by (simp add: Cons_nth_drop_Suc)
  with w ws show ?case
    by (simp add: element_at_nth [OF assms(1) i])
qed

lemma array_map_entries:
  assumes "read_array h (read_array h as_number) arr = Some pts"
  shows "\<exists>ws. array_map (entry_callback k) arr h = Some (VReference (length h), h @ [JsArray ws]) \<and>
              those (map as_argument ws) = Some (map (\<lambda>p. index p k) pts)"
proof -
  from assms obtain pvs where pvs: "values_of h arr = Some pvs"
    and all: "list_all2 (\<lambda>u p. read_array h as_number u = Some p) pvs pts"
    unfolding read_array_iff by blast
  from map_from_entries [OF pvs all, of 0 "length pvs" k] obtain ws
    where ws: "map_from (entry_callback k) arr 0 (length pvs) h = Some (ws, h)"
      "list_all2 (\<lambda>w p. as_argument w = Some (index p k)) ws pts"
    by auto
  from ws(2) have "those (map as_argument ws) = Some (map (\<lambda>p. index p k) pts)"
    by (simp add: those_map_iff list_all2_map2)
  with ws(1) show ?thesis
    by (simp add: array_map_def array_length_values [OF pvs] allocate_def)
qed

lemma spread_allocated:
  "spread (h @ JsArray ws # t) (VReference (length h)) = those (map as_argument ws)"
  by (simp add: spread_def values_of_def index_def nth_append)

lemma read_text_item_allocated:
  "read_text_item
     (h @ [JsObject [(''text'', VString tx), (''x'', VNumber x), (''y'', VNumber y),
                     (''width'', VNumber w), (''height'', VNumber ht),
                     (''fontName'', VString f), (''hasEOL'', VBoolean e)]])
     (VReference (length h)) =
   Some \<lparr>item_text = tx, item_x = x, item_y = y, item_width = w, item_height = ht,
         item_fontName = f, item_hasEOL = e\<rparr>"
  by (simp add: read_text_item_def fields_of_allocate lookup_def read_string_def as_number_def
      read_boolean_def)

lemma read_string_VString: "read_string v = Some s \<longleftrightarrow> v = VString s"
  by (simp add: read_string_def split: js_value.splits)

lemma as_number_VNumber: "as_number v = Some n \<longleftrightarrow> v = VNumber n"
  by (simp add: as_number_def split: js_value.splits)

lemma read_optional_None: "read_optional read v = Some None \<longleftrightarrow> v = VUndefined"
  by (auto simp: read_optional_def)

lemma read_optional_Some:
  "read_optional read v = Some (Some x) \<longleftrightarrow> v \<noteq> VUndefined \<and> read v = Some x"
  by (auto simp: read_optional_def)

lemma fields_of_truthy: "fields_of h v = Some props \<Longrightarrow> truthy v"
  by (auto simp: fields_of_def split: js_value.splits)

lemma values_of_truthy: "values_of h v = Some vs \<Longrightarrow> truthy v"
  by (auto simp: values_of_def split: js_value.splits)

lemma to_text_item_callback_default:
  assumes props: "fields_of h v = Some props"
    and tx: "lookup props ''text'' = VString s"
    and m: "property h v ''metadata'' = Some m"
    and no_points:
      "\<not> truthy m \<or>
       (\<exists>c. property h m ''coordinates'' = Some c \<and>
          (\<not> truthy c \<or>
           (\<exists>p. property h c ''points'' = Some p \<and> array_length h p = Some 0 \<and> truthy p)))"
  shows "\<exists>t. to_text_item_callback v h =
           Some (VReference (length (h @ t)),
                 (h @ t) @
                 [JsObject [(''text'', VString s), (''x'', VNumber (double 0)),
                            (''y'', VNumber (double 0)), (''width'', VNumber (double 100)),
                            (''height'', VNumber (double 12)),
                            (''fontName'', VString (ascii ''UnknownFont'')),
                            (''hasEOL'', VBoolean True)]])"
proof (cases "truthy m")
  case False
  have "property (h @ [JsObject []]) (VReference (length h)) ''coordinates'' = Some VUndefined"
    by (simp add: property_fields [OF fields_of_allocate] lookup_def)
  moreover have "property (h @ [JsObject []]) v ''text'' = Some (VString s)"
    by (simp add: property_fields [OF fields_of_append [OF props]] tx)
  ultimately have "to_text_item_callback v h =
           Some (VReference (length (h @ [JsObject []])),
                 (h @ [JsObject []]) @
                 [JsObject [(''text'', VString s), (''x'', VNumber (double 0)),
                            (''y'', VNumber (double 0)), (''width'', VNumber (double 100)),
                            (''height'', VNumber (double 12)),
                            (''fontName'', VString (ascii ''UnknownFont'')),
                            (''hasEOL'', VBoolean True)]])"
    using False m by (simp add: to_text_item_callback_def allocate_def)
  then show ?thesis by blast
next
  case True
  with no_points obtain c where c: "property h m ''coordinates'' = Some c"
    and rest: "\<not> truthy c \<or>
           (\<exists>p. property h c ''points'' = Some p \<and> array_length h p = Some 0 \<and> truthy p)"
    by blast
  have rd: "property h v ''text'' = Some (VString s)"
    by (simp add: property_fields [OF props] tx)
  have "to_text_item_callback v h =
           Some (VReference (length (h @ [])),
                 (h @ []) @
                 [JsObject [(''text'', VString s), (''x'', VNumber (double 0)),
                            (''y'', VNumber (double 0)), (''width'', VNumber (double 100)),
                            (''height'', VNumber (double 12)),
                            (''fontName'', VString (ascii ''UnknownFont'')),
                            (''hasEOL'', VBoolean True)]])"
    using True m c rest rd
    by (auto simp: to_text_item_callback_def allocate_def)
  then show ?thesis by blast
qed

lemma to_text_item_callback_box:
  assumes props: "fields_of h v = Some props"
    and tx: "lookup props ''text'' = VString s"
    and m: "lookup props ''metadata'' = m" "fields_of h m = Some mprops"
    and c: "lookup mprops ''coordinates'' = cv" "read_coordinates h cv = Some c"
    and ne: "points c \<noteq> []"
  shows "\<exists>t. to_text_item_callback v h =
           Some (VReference (length (h @ t)),
                 (h @ t) @
                 [JsObject [(''text'', VString s), (''x'', VNumber (Math_min (point_xs c))),
                            (''y'', VNumber (js_minus (number_or (layout_height c) (double 792))
                                               (Math_max (point_ys c)))),
                            (''width'', VNumber (js_minus (Math_max (point_xs c))
                                                   (Math_min (point_xs c)))),
                            (''height'', VNumber (js_minus (Math_max (point_ys c))
                                                    (Math_min (point_ys c)))),
                            (''fontName'', VString (ascii ''UnknownFont'')),
                            (''hasEOL'', VBoolean True)]])"
proof -
  from c(2) obtain cprops where cprops: "fields_of h cv = Some cprops"
    and pts: "read_array h (read_array h as_number) (lookup cprops ''points'') = Some (points c)"
    and lh: "lookup cprops ''layout_height'' = VNumber (layout_height c)"
    unfolding read_coordinates_iff as_number_VNumber by blast
  let ?p = "lookup cprops ''points''"
  from pts obtain pvs where pvs: "values_of h ?p = Some pvs"
    and len: "length pvs = length (points c)"
    unfolding read_array_iff by (blast dest: list_all2_lengthD)
  from array_map_entries [OF pts, of 0] obtain wx
    where wx: "array_map (entry_callback 0) ?p h = Some (VReference (length h), h @ [JsArray wx])"
      "those (map as_argument wx) = Some (point_xs c)"
    unfolding point_xs_def by blast
  let ?h2 = "h @ [JsArray wx]"
  from array_map_entries [OF read_points_append [OF pts, of "[JsArray wx]"], of 1] obtain wy
    where wy: "array_map (entry_callback 1) ?p ?h2 =
                 Some (VReference (length ?h2), ?h2 @ [JsArray wy])"
      "those (map as_argument wy) = Some (point_ys c)"
    unfolding point_ys_def by blast
  let ?h3 = "?h2 @ [JsArray wy]"
  have sx: "spread ?h3 (VReference (length h)) = Some (point_xs c)"
    using spread_allocated [of h wx "[JsArray wy]"] wx(2) by simp
  have sy: "spread ?h3 (VReference (Suc (length h))) = Some (point_ys c)"
    using spread_allocated [of ?h2 wy "[]"] wy(2) by simp
  have reads:
    "property h v ''metadata'' = Some m"
    "truthy m"
    "property h m ''coordinates'' = Some cv"
    "truthy cv"
    "property h cv ''points'' = Some ?p"
    "truthy ?p"
    "array_length h ?p = Some (length (points c))"
    "property ?h3 cv ''layout_height'' = Some (VNumber (layout_height c))"
    "property ?h3 v ''text'' = Some (VString s)"
    using m c(1) lh tx len
    by (simp_all add: property_fields [OF props] property_fields [OF m(2)]
        property_fields [OF cprops] fields_of_truthy [OF m(2)] fields_of_truthy [OF cprops]
        values_of_truthy [OF pvs] array_length_values [OF pvs]
        property_fields [OF fields_of_append [OF cprops]]
        property_fields [OF fields_of_append [OF props]])
  have page: "(if truthy (VNumber (layout_height c)) then as_number (VNumber (layout_height c))
               else Some (double 792)) = Some (number_or (layout_height c) (double 792))"
    by (simp add: number_or_def as_number_def)
  have "to_text_item_callback v h =
           Some (VReference (length ?h3),
                 ?h3 @
                 [JsObject [(''text'', VString s), (''x'', VNumber (Math_min (point_xs c))),
                            (''y'', VNumber (js_minus (number_or (layout_height c) (double 792))
                                               (Math_max (point_ys c)))),
                            (''width'', VNumber (js_minus (Math_max (point_xs c))
                                                   (Math_min (point_xs c)))),
                            (''height'', VNumber (js_minus (Math_max (point_ys c))
                                                    (Math_min (point_ys c)))),
                            (''fontName'', VString (ascii ''UnknownFont'')),
                            (''hasEOL'', VBoolean True)]])"
    unfolding to_text_item_callback_def
    using ne
    by (simp add: reads wx(1) wy(1) sx sy number_or_def as_number_def allocate_def Let_def
        del: append_assoc One_nat_def)
  then show ?thesis
    by (metis append_assoc)
qed

lemma to_text_item_callback_read:
  assumes "read_element h v = Some e"
  shows "\<exists>r t. to_text_item_callback v h = Some (r, h @ t) \<and>
                read_text_item (h @ t) r = Some (to_text_item e)"
proof -
  from assms obtain props where props: "fields_of h v = Some props"
    and tx: "lookup props ''text'' = VString (el_text e)"
    and md: "read_optional (read_metadata h) (lookup props ''metadata'') = Some (el_metadata e)"
    unfolding read_element_iff read_string_VString by blast
  have m: "property h v ''metadata'' = Some (lookup props ''metadata'')"
    by (rule property_fields [OF props])
  show ?thesis
  proof (cases "coordinate_points e")
    case None
    have "\<not> truthy (lookup props ''metadata'') \<or>
       (\<exists>c. property h (lookup props ''metadata'') ''coordinates'' = Some c \<and>
          (\<not> truthy c \<or>
           (\<exists>p. property h c ''points'' = Some p \<and> array_length h p = Some 0 \<and> truthy p)))"
    proof (cases "el_metadata e")
      case None
      with md show ?thesis by (simp add: read_optional_None)
    next
      case (Some md')
      with md have "read_optional (read_metadata h) (lookup props ''metadata'') = Some (Some md')"
        by simp
      then obtain mprops where mprops: "fields_of h (lookup props ''metadata'') = Some mprops"
        and c: "read_optional (read_coordinates h) (lookup mprops ''coordinates'') =
                  Some (coordinates md')"
        unfolding read_optional_Some read_metadata_iff by blast
      note mc = property_fields [OF mprops, of "''coordinates''"]
      show ?thesis
      proof (cases "coordinates md'")
        case None
        with c mc show ?thesis by (simp add: read_optional_None)
      next
        case (Some c')
        with None \<open>el_metadata e = Some md'\<close> have empty: "points c' = []"
          by (simp add: coordinate_points_def split: if_splits)
        from c Some have "read_optional (read_coordinates h) (lookup mprops ''coordinates'') =
                  Some (Some c')"
          by simp
        then obtain cprops where cprops: "fields_of h (lookup mprops ''coordinates'') = Some cprops"
          and pts: "read_array h (read_array h as_number) (lookup cprops ''points'') = Some (points c')"
          unfolding read_optional_Some read_coordinates_iff by blast
        from pts empty obtain pvs where pvs: "values_of h (lookup cprops ''points'') = Some pvs"
          and "pvs = []"
          unfolding read_array_iff by auto
        then have "array_length h (lookup cprops ''points'') = Some 0"
          "truthy (lookup cprops ''points'')"
          by (simp_all add: array_length_values values_of_truthy)
        with mc property_fields [OF cprops, of "''points''"] show ?thesis by blast
      qed
    qed
    from to_text_item_callback_default [OF props tx m this] obtain t
      where "to_text_item_callback v h =
           Some (VReference (length (h @ t)),
                 (h @ t) @
                 [JsObject [(''text'', VString (el_text e)), (''x'', VNumber (double 0)),
                            (''y'', VNumber (double 0)), (''width'', VNumber (double 100)),
                            (''height'', VNumber (double 12)),
                            (''fontName'', VString (ascii ''UnknownFont'')),
                            (''hasEOL'', VBoolean True)]])"
      by blast
    moreover note read_text_item_allocated [of "h @ t" "el_text e" "double 0" "double 0"
        "double 100" "double 12" "ascii ''UnknownFont''" True]
    ultimately show ?thesis
      unfolding to_text_item_default [OF None] by (metis append_assoc)
  next
    case (Some c)
    then obtain md' where md': "el_metadata e = Some md'" "coordinates md' = Some c"
      "points c \<noteq> []" unfolding coordinate_points_Some by blast
    from md md'(1) have "read_optional (read_metadata h) (lookup props ''metadata'') =
                Some (Some md')"
      by simp
    then obtain mprops where mprops: "fields_of h (lookup props ''metadata'') = Some mprops"
      and c: "read_optional (read_coordinates h) (lookup mprops ''coordinates'') =
                Some (coordinates md')"
      unfolding read_optional_Some read_metadata_iff by blast
    from c md'(2) have rc: "read_coordinates h (lookup mprops ''coordinates'') = Some c"
      by (simp add: read_optional_Some)
    from to_text_item_callback_box [OF props tx refl mprops refl rc md'(3)] obtain t
      where "to_text_item_callback v h =
           Some (VReference (length (h @ t)),
                 (h @ t) @
                 [JsObject [(''text'', VString (el_text e)), (''x'', VNumber (Math_min (point_xs c))),
                            (''y'', VNumber (js_minus (number_or (layout_height c) (double 792))
                                               (Math_max (point_ys c)))),
                            (''width'', VNumber (js_minus (Math_max (point_xs c))
                                                   (Math_min (point_xs c)))),
                            (''height'', VNumber (js_minus (Math_max (point_ys c))
                                                    (Math_min (point_ys c)))),
                            (''fontName'', VString (ascii ''UnknownFont'')),
                            (''hasEOL'', VBoolean True)]])"
      by blast
    moreover note read_text_item_allocated [of "h @ t" "el_text e" "Math_min (point_xs c)"
        "js_minus (number_or (layout_height c) (double 792)) (Math_max (point_ys c))"
        "js_minus (Math_max (point_xs c)) (Math_min (point_xs c))"
        "js_minus (Math_max (point_ys c)) (Math_min (point_ys c))" "ascii ''UnknownFont''" True]
    ultimately show ?thesis
      unfolding to_text_item_box [OF md'] by (metis append_assoc)
  qed
qed

lemma filter_from_read:
  assumes "values_of h arr = Some vs"
    and "list_all2 (\<lambda>v e. read_element h v = Some e) vs els"
    and "k + n = length vs"
  shows "\<exists>kept. filter_from has_text_callback arr k n h = Some (kept, h) \<and>
           list_all2 (\<lambda>v e. read_element h v = Some e) kept (filter has_text (drop k els))"
  using assms(3)
proof (induction n arbitrary: k)
  case 0
  with assms(2) have "drop k els = []" by (simp add: list_all2_lengthD [symmetric])
  then show ?case by simp
next
  case (Suc n)
  from assms(2) have len: "length vs = length els" by (rule list_all2_lengthD)
  from Suc.prems have k: "k < length vs" by simp
  with assms(2) have rd: "read_element h (vs ! k) = Some (els ! k)"
    by (simp add: list_all2_conv_all_nth)
  from has_text_callback_read [OF rd] obtain r
    where r: "has_text_callback (vs ! k) h = Some (r, h)" "truthy r = has_text (els ! k)"
    by blast
  from Suc.prems have "Suc k + n = length vs" by simp
  from Suc.IH [OF this] obtain kept
    where kept: "filter_from has_text_callback arr (Suc k) n h = Some (kept, h)"
      "list_all2 (\<lambda>v e. read_element h v = Some e) kept (filter has_text (drop (Suc k) els))"
    by blast
  from k len have "drop k els = els ! k # drop (Suc k) els"
    by (simp add: Cons_nth_drop_Suc)
  with r kept rd show ?case
    by (simp add: element_at_nth [OF assms(1) k])
qed

lemma map_from_read:
  assumes "values_of h arr = Some vs"
    and "list_all2 (\<lambda>v e. read_element h v = Some e) vs els"
    and "k + n = length vs"
  shows "\<exists>rs t. map_from to_text_item_callback arr k n h = Some (rs, h @ t) \<and>
           list_all2 (\<lambda>r e. read_text_item (h @ t) r = Some (to_text_item e)) rs (drop k els)"
  using assms
proof (induction n arbitrary: k h)
  case 0
  then have "drop k els = []" by (simp add: list_all2_lengthD [symmetric])
  then have "map_from to_text_item_callback arr k 0 h = Some ([], h @ []) \<and>
           list_all2 (\<lambda>r e. read_text_item (h @ []) r = Some (to_text_item e)) [] (drop k els)"
    by simp
  then show ?case by blast
next
  case (Suc n)
  from Suc.prems(2) have len: "length vs = length els" by (rule list_all2_lengthD)
  from Suc.prems(3) have k: "k < length vs" by simp
  with Suc.prems(2) have rd: "read_element h (vs ! k) = Some (els ! k)"
    by (simp add: list_all2_conv_all_nth)
  from to_text_item_callback_read [OF rd] obtain r t1
    where r: "to_text_item_callback (vs ! k) h = Some (r, h @ t1)"
      "read_text_item (h @ t1) r = Some (to_text_item (els ! k))"
    by blast
  have vs': "values_of (h @ t1) arr = Some vs"
    using Suc.prems(1) by (rule values_of_append)
  have all': "list_all2 (\<lambda>v e. read_element (h @ t1) v = Some e) vs els"
    using Suc.prems(2) by (rule list_all2_mono) (rule read_element_append)
  from Suc.prems(3) have "Suc k + n = length vs" by simp
  from Suc.IH [OF vs' all' this] obtain rs t2
    where rs: "map_from to_text_item_callback arr (Suc k) n (h @ t1) = Some (rs, (h @ t1) @ t2)"
      "list_all2 (\<lambda>r e. read_text_item ((h @ t1) @ t2) r = Some (to_text_item e)) rs
         (drop (Suc k) els)"
    by blast
  from k len have dr: "drop k els = els ! k # drop (Suc k) els"
    by (simp add: Cons_nth_drop_Suc)
  have "map_from to_text_item_callback arr k (Suc n) h = Some (r # rs, h @ (t1 @ t2))"
    using r(1) rs(1) by (simp add: element_at_nth [OF Suc.prems(1) k])
  moreover have "list_all2 (\<lambda>r e. read_text_item (h @ (t1 @ t2)) r = Some (to_text_item e))
                   (r # rs) (drop k els)"
    using rs(2) read_text_item_append [OF r(2), of t2] by (simp add: dr)
  ultimately show ?case by blast
qed

lemma convert_on_heap_read:
  assumes "read_array h (read_element h) elements = Some els"
  shows "\<exists>a t. convert_on_heap elements h = Some (VReference a, h @ t) \<and>
           length h \<le> a \<and>
           read_array (h @ t) (read_text_item (h @ t)) (VReference a) =
             Some (convertUnstructuredToTextItems els)"
proof -
  from assms obtain vs where vs: "values_of h elements = Some vs"
    and all: "list_all2 (\<lambda>v e. read_element h v = Some e) vs els"
    unfolding read_array_iff by blast
  from filter_from_read [OF vs all, of 0 "length vs"] obtain kept
    where kept: "filter_from has_text_callback elements 0 (length vs) h = Some (kept, h)"
      "list_all2 (\<lambda>v e. read_element h v = Some e) kept (filter has_text els)"
    by auto
  let ?h1 = "h @ [JsArray kept]"
  have filtered: "array_filter has_text_callback elements h = Some (VReference (length h), ?h1)"
    using kept(1) by (simp add: array_filter_def array_length_values [OF vs] allocate_def)
  have kvs: "values_of ?h1 (VReference (length h)) = Some kept"
    by (rule values_of_allocate)
  have kall: "list_all2 (\<lambda>v e. read_element ?h1 v = Some e) kept (filter has_text els)"
    using kept(2) by (rule list_all2_mono) (rule read_element_append)
  from map_from_read [OF kvs kall, of 0 "length kept"] obtain rs t
    where rs: "map_from to_text_item_callback (VReference (length h)) 0 (length kept) ?h1 =
                 Some (rs, ?h1 @ t)"
      "list_all2 (\<lambda>r e. read_text_item (?h1 @ t) r = Some (to_text_item e)) rs
         (filter has_text els)"
    by auto
  let ?h2 = "(?h1 @ t) @ [JsArray rs]"
  have mapped: "array_map to_text_item_callback (VReference (length h)) ?h1 =
                  Some (VReference (length (?h1 @ t)), ?h2)"
    using rs(1) by (simp add: array_map_def array_length_values [OF kvs] allocate_def)
  have "list_all2 (\<lambda>r e. read_text_item ?h2 r = Some e) rs
          (map to_text_item (filter has_text els))"
    unfolding list_all2_map2
    using rs(2) by (rule list_all2_mono) (rule read_text_item_append)
  with values_of_allocate [of "?h1 @ t" rs]
  have "read_array ?h2 (read_text_item ?h2) (VReference (length (?h1 @ t))) =
          Some (convertUnstructuredToTextItems els)"
    unfolding read_array_iff convertUnstructuredToTextItems_def by blast
  moreover have "convert_on_heap elements h = Some (VReference (length (?h1 @ t)), ?h2)"
    by (simp add: convert_on_heap_def filtered mapped del: append_assoc)
  moreover have "?h2 = h @ ([JsArray kept] @ t @ [JsArray rs])" by simp
  moreover have "length h \<le> length (?h1 @ t)" by simp
  ultimately show ?thesis by metis
qed

text \<open>
  A callback that writes is seen: \<open>map\<close> hands on the heap the callback leaves, and
  the array at address 0 is no longer what it was.
\<close>

lemma writing_callback_is_seen:
  "array_map overwriting_callback (VReference 0) [JsArray [VBoolean True]] =
     Some (VReference 1, [JsArray [], JsArray [VBoolean True]]) \<and>
   take 1 [JsArray [], JsArray [VBoolean True]] \<noteq> [JsArray [VBoolean True]]"
  by (simp add: array_map_def array_length_def values_of_def index_def element_at_def
      overwriting_callback_def allocate_def)

text \<open>
  Claim C9. Run on any heap, on any value at which the heap holds a well-typed array
  of elements, the conversion returns; it leaves everything that was in the heap as it
  was, the argument and its elements included; the array it returns is at a new
  address and holds the value \<open>convertUnstructuredToTextItems\<close> gives for the
  elements; a second run on the heap the first one left returns equal items; and so
  does a run on any other heap, at any value, holding equal elements.
\<close>

theorem conversion_reads_and_allocates:
  assumes "read_array h (read_element h) elements = Some els"
  shows "(case convert_on_heap elements h of
            None \<Rightarrow> False
          | Some (textItems, h') \<Rightarrow>
              take (length h) h' = h \<and>
              (case textItems of VReference a \<Rightarrow> length h \<le> a | _ \<Rightarrow> False) \<and>
              read_array h' (read_text_item h') textItems =
                Some (convertUnstructuredToTextItems els) \<and>
              read_array h' (read_element h') elements = Some els \<and>
              returned_items (convert_on_heap elements h') =
                Some (convertUnstructuredToTextItems els)) \<and>
         (read_array h2 (read_element h2) elements2 = Some els \<longrightarrow>
            returned_items (convert_on_heap elements2 h2) =
              returned_items (convert_on_heap elements h))"
proof -
  have content: "returned_items (convert_on_heap v g) = Some (convertUnstructuredToTextItems els)"
    if "read_array g (read_element g) v = Some els" for v g
    using convert_on_heap_read [OF that] by (auto simp: returned_items_def)
  from convert_on_heap_read [OF assms] obtain a t
    where run: "convert_on_heap elements h = Some (VReference a, h @ t)" "length h \<le> a"
      "read_array (h @ t) (read_text_item (h @ t)) (VReference a) =
         Some (convertUnstructuredToTextItems els)"
    by blast
  have again: "read_array (h @ t) (read_element (h @ t)) elements = Some els"
    using assms by (rule read_array_append) (rule read_element_append)
  show ?thesis
    using run again content [OF again] content [OF assms] content [of h2 elements2]
    by simp
qed

lemma read_sample_heap:
  "read_array sample_heap (read_element sample_heap) (VReference 7) =
   Some [heap_element, blank_element]"
  by (simp add: read_array_def read_element_def read_metadata_def read_coordinates_def
      read_optional_def read_string_def as_number_def values_of_def fields_of_def lookup_def
      index_def sample_heap_def heap_element_def blank_element_def sample_coordinates_def)

text \<open>The sample heap, and the same elements in a larger heap.\<close>

theorem conversion_reads_and_allocates_witness:
  "read_array sample_heap (read_element sample_heap) (VReference 7) =
     Some [heap_element, blank_element] \<and>
   read_array (sample_heap @ [JsArray []]) (read_element (sample_heap @ [JsArray []]))
     (VReference 7) = Some [heap_element, blank_element] \<and>
   returned_items (convert_on_heap (VReference 7) sample_heap) =
     Some (convertUnstructuredToTextItems [heap_element, blank_element]) \<and>
   returned_items (convert_on_heap (VReference 7) (sample_heap @ [JsArray []])) =
     returned_items (convert_on_heap (VReference 7) sample_heap) \<and>
   convert_on_heap (VReference 7) sample_heap \<noteq> None"
proof -
  have other: "read_array (sample_heap @ [JsArray []]) (read_element (sample_heap @ [JsArray []]))
     (VReference 7) = Some [heap_element, blank_element]"
    using read_sample_heap by (rule read_array_append) (rule read_element_append)
  from conversion_reads_and_allocates [OF read_sample_heap,
      of "sample_heap @ [JsArray []]" "VReference 7"]
  show ?thesis
    using read_sample_heap other
    by (auto simp: returned_items_def split: option.splits prod.splits)
qed

section \<open>The empty document\<close>

lemma spec_stages_run:
  "groupTextItemsIntoLines (spec_stages hs) textItems =
     Inr (spec_groupTextItemsIntoLines hs textItems)"
  "groupLinesIntoSections (spec_stages hs) lines = Inr (spec_groupLinesIntoSections hs lines)"
  "extractResumeFromSections (spec_stages hs) sections =
     Inr (spec_extractResumeFromSections hs sections)"
  by (simp_all add: spec_stages_def)

lemma spec_stages_empty:
  "spec_groupTextItemsIntoLines hs [] = []"
  "spec_groupLinesIntoSections hs [] = [unknown_section]"
  "spec_extractResumeFromSections hs [unknown_section] = empty_resume"
  by (simp_all add: spec_groupTextItemsIntoLines_def spec_groupLinesIntoSections_def
      spec_extractResumeFromSections_def lines_in_def category_of_def unknown_section_def
      empty_resume_def List.map_filter_simps)

text \<open>
  Every converted item has \<open>hasEOL = true\<close> and a text that is not blank, so the line
  grouper of the specification makes one line of each item of the conversion.
\<close>

lemma accumulate_lines_hasEOL:
  "list_all item_hasEOL (current @ textItems) \<Longrightarrow>
   accumulate_lines hs current textItems =
     (if current = [] then [] else [current]) @ map (\<lambda>textItem. [textItem]) textItems"
proof (induction textItems arbitrary: current)
  case Nil
  then show ?case by simp
next
  case (Cons textItem rest)
  show ?case
  proof (cases "current = []")
    case True
    then show ?thesis using Cons.IH [of "[textItem]"] Cons.prems by simp
  next
    case False
    then have "item_hasEOL (last current)"
      using Cons.prems by (simp add: list_all_iff)
    then show ?thesis
      using False Cons.IH [of "[textItem]"] Cons.prems by simp
  qed
qed

lemma converted_lines:
  "spec_groupTextItemsIntoLines hs (convertUnstructuredToTextItems elements) =
   map (\<lambda>textItem. \<lparr>line_fragments = [textItem], line_box = aggregate_box hs [textItem]\<rparr>)
     (convertUnstructuredToTextItems elements)"
proof -
  have eol: "list_all item_hasEOL ([] @ convertUnstructuredToTextItems elements)"
    by (simp add: convertUnstructuredToTextItems_def list_all_iff to_text_item_hasEOL)
  have keep: "filter (\<lambda>row. \<not> list_all (\<lambda>fragment. whitespace_only (item_text fragment)) row)
                (map (\<lambda>textItem. [textItem]) (convertUnstructuredToTextItems elements)) =
              map (\<lambda>textItem. [textItem]) (convertUnstructuredToTextItems elements)"
    by (auto simp: filter_id_conv convertUnstructuredToTextItems_def to_text_item_text
        has_text_iff whitespace_only_def list_all_iff)
  show ?thesis
    unfolding spec_groupTextItemsIntoLines_def accumulate_lines_hasEOL [OF eol]
    by (simp add: keep sort_by_x_def o_def)
qed

lemma sample_resume:
  "resume_profile
     (spec_extractResumeFromSections sample_heuristics
        (spec_groupLinesIntoSections sample_heuristics
           (spec_groupTextItemsIntoLines sample_heuristics
              (convertUnstructuredToTextItems [sample_element, blank_element, bare_element])))) =
   \<lparr>profile_name = Some (ascii ''John Doe''), profile_email = Some (ascii ''john@x.com''),
    profile_phone = None, profile_links = []\<rparr>"
proof -
  have texts: "item_text (to_text_item sample_element) = ascii ''John Doe''"
    "item_text (to_text_item bare_element) = ascii ''john@x.com''"
    by (simp_all add: to_text_item_text sample_element_def bare_element_def)
  have lines: "line_text \<lparr>line_fragments = [to_text_item sample_element], line_box = b\<rparr> =
                 ascii ''John Doe''"
    "line_text \<lparr>line_fragments = [to_text_item bare_element], line_box = b\<rparr> =
                 ascii ''john@x.com''" for b
    by (simp_all add: line_text_def texts ascii_def isWhiteSpace_def)
  have headings: "\<not> is_heading sample_heuristics
                     \<lparr>line_fragments = [to_text_item sample_element], line_box = b\<rparr>"
    "\<not> is_heading sample_heuristics
         \<lparr>line_fragments = [to_text_item bare_element], line_box = b\<rparr>" for b
    by (simp_all add: sample_heuristics_def lines) (simp_all add: ascii_def)
  show ?thesis
    unfolding converted_lines
    by (simp add: convertUnstructuredToTextItems_def has_text_samples
        spec_groupLinesIntoSections_def unknown_section_def headings
        spec_extractResumeFromSections_def lines_in_def category_of_def lines
        List.map_filter_simps)
      (simp add: sample_heuristics_def lines, simp add: ascii_def)
qed

text \<open>
  Claim C3. An empty element list is not an error: the conversion of the empty list is
  the empty list; when the parsing service answers with no element, \<open>readDocument\<close>
  (and \<open>readPdf\<close>, once the file is fetched) returns the empty list of text items
  without throwing; \<open>parseResumeFromFile\<close> then returns what the later stages make
  of the empty list, and with the later stages of the specification, whatever their
  heuristics, both pipelines return the record with all fields absent, after calling
  the three stages on no item, no line and the single unknown section.
\<close>

theorem empty_elements_empty_resume:
  "convertUnstructuredToTextItems [] = [] \<and>
   (parseDocumentWithUnstructured w file = Inr [] \<longrightarrow>
      readDocument w file = Inr [] \<and>
      fst (parseResumeFromFile w st file calls) =
        bind_result (bind_result (groupTextItemsIntoLines st [])
          (groupLinesIntoSections st)) (extractResumeFromSections st) \<and>
      parseResumeFromFile w (spec_stages hs) file calls' =
        (Inr empty_resume,
         calls' @ [Call_readDocument file, Call_groupTextItemsIntoLines [],
                   Call_groupLinesIntoSections [],
                   Call_extractResumeFromSections [unknown_section]])) \<and>
   (fetch_file w fileUrl = Inr fetched \<and> parseDocumentWithUnstructured w fetched = Inr [] \<longrightarrow>
      readPdf w fileUrl = Inr [] \<and>
      parseResumeFromPdf w (spec_stages hs) fileUrl calls' =
        (Inr empty_resume,
         calls' @ [Call_readPdf fileUrl, Call_groupTextItemsIntoLines [],
                   Call_groupLinesIntoSections [],
                   Call_extractResumeFromSections [unknown_section]]))"
proof -
  have conv: "convertUnstructuredToTextItems [] = []"
    by (simp add: convertUnstructuredToTextItems_def)
  have rd: "readDocument w f = Inr []" if "parseDocumentWithUnstructured w f = Inr []" for f
    using readDocument_success [OF that] conv by simp
  have generic: "fst (parseResumeFromFile w st file calls) =
        bind_result (bind_result (groupTextItemsIntoLines st [])
          (groupLinesIntoSections st)) (extractResumeFromSections st)"
    if "parseDocumentWithUnstructured w file = Inr []"
    using rd [OF that] by (simp add: parseResumeFromFile_run bind_result_def split: sum.splits)
  have from_file: "parseResumeFromFile w (spec_stages hs) file calls' =
        (Inr empty_resume,
         calls' @ [Call_readDocument file, Call_groupTextItemsIntoLines [],
                   Call_groupLinesIntoSections [],
                   Call_extractResumeFromSections [unknown_section]])"
    if "parseDocumentWithUnstructured w file = Inr []"
    using rd [OF that] by (simp add: parseResumeFromFile_run spec_stages_run spec_stages_empty)
  have pdf: "readPdf w fileUrl = Inr []"
    if "fetch_file w fileUrl = Inr fetched" "parseDocumentWithUnstructured w fetched = Inr []"
    using that rd [of fetched] by (simp add: readPdf_fetched)
  have from_pdf: "parseResumeFromPdf w (spec_stages hs) fileUrl calls' =
        (Inr empty_resume,
         calls' @ [Call_readPdf fileUrl, Call_groupTextItemsIntoLines [],
                   Call_groupLinesIntoSections [],
                   Call_extractResumeFromSections [unknown_section]])"
    if "fetch_file w fileUrl = Inr fetched" "parseDocumentWithUnstructured w fetched = Inr []"
    using pdf [OF that] by (simp add: parseResumeFromPdf_run spec_stages_run spec_stages_empty)
  show ?thesis
    using conv rd generic from_file pdf from_pdf by blast
qed

text \<open>A service that answers with no element, from a file and from a URL.\<close>

theorem empty_elements_empty_resume_witness:
  "parseDocumentWithUnstructured (serving_world []) sample_file = Inr [] \<and>
   fetch_file (serving_world []) (ascii ''https://example.com/cv/resume.pdf'') = Inr sample_file \<and>
   readDocument (serving_world []) sample_file = Inr [] \<and>
   readPdf (serving_world []) (ascii ''https://example.com/cv/resume.pdf'') = Inr [] \<and>
   fst (parseResumeFromFile (serving_world []) sample_stages sample_file []) = Inr 0 \<and>
   fst (parseResumeFromFile (serving_world []) (spec_stages sample_heuristics) sample_file []) =
     Inr empty_resume \<and>
   fst (parseResumeFromPdf (serving_world []) (spec_stages sample_heuristics)
          (ascii ''https://example.com/cv/resume.pdf'') []) = Inr empty_resume"
  using empty_elements_empty_resume [of "serving_world []" sample_file sample_stages "[]"
      sample_heuristics "[]" "ascii ''https://example.com/cv/resume.pdf''" sample_file]
  by (simp add: parse_serving_world fetch_file_serving_world bind_result_def sample_stages_def)

end
